theory Spec2Isabelle
  imports Main "HOL-Library.Code_Target_Numeral"
begin

section \<open>JavaScript values\<close>

text \<open>
  The form record, the rule tables and the service payloads are plain JavaScript objects
  holding primitive values. A finite Number is kept as a decimal \<open>m * 10^e\<close>, the form in
  which \<open>Number::toString\<close> is defined in ECMAScript; the numbers that the parsers return
  are rounded to binary64 and kept as the shortest decimal that reads back as the same
  binary64 value. The two zeros are one value (both are falsy and both print as \<open>0\<close>).
  Strings are lists of 8-bit characters; \<open>JFile\<close> is the opaque \<open>File\<close> object of an upload,
  with its name.
\<close>

datatype jsnum = NaN | PosInf | NegInf | Dec int int

datatype jsval = JUndefined | JNull | JBool bool | JNum jsnum | JStr string | JFile string

text \<open>A thrown error object, with its \<open>message\<close>.\<close>

datatype jserror = TypeError string | Error string

fun message :: "jserror \<Rightarrow> string" where
  "message (TypeError m) = m"
| "message (Error m) = m"

definition zero :: jsval where
  "zero = JNum (Dec 0 0)"

text \<open>Falsy values: \<open>undefined\<close>, \<open>null\<close>, \<open>false\<close>, \<open>NaN\<close>, zero and the empty string.\<close>

fun truthy :: "jsval \<Rightarrow> bool" where
  "truthy JUndefined = False"
| "truthy JNull = False"
| "truthy (JBool b) = b"
| "truthy (JNum NaN) = False"
| "truthy (JNum (Dec m e)) = (m \<noteq> 0)"
| "truthy (JNum _) = True"
| "truthy (JStr s) = (s \<noteq> [])"
| "truthy (JFile _) = True"

text \<open>The operator \<open>a || b\<close>.\<close>

definition orElse :: "jsval \<Rightarrow> jsval \<Rightarrow> jsval" where
  "orElse a b = (if truthy a then a else b)"

subsection \<open>Strings\<close>

text \<open>
  The white space and line terminators that \<open>String.prototype.trim\<close> and the number parsers
  skip, as far as they are 8-bit characters: TAB, LF, VT, FF, CR, SP and NBSP.
\<close>

definition isWhiteSpace :: "char \<Rightarrow> bool" where
  "isWhiteSpace c = (c \<in> set [CHR 0x09, CHR 0x0A, CHR 0x0B, CHR 0x0C, CHR 0x0D, CHR 0x20, CHR 0xA0])"

definition trimStart :: "string \<Rightarrow> string" where
  "trimStart s = dropWhile isWhiteSpace s"

definition trim :: "string \<Rightarrow> string" where
  "trim s = rev (trimStart (rev (trimStart s)))"

definition digitChar :: "nat \<Rightarrow> char" where
  "digitChar d = ''0123456789'' ! d"

fun decDigits :: "nat \<Rightarrow> string" where
  "decDigits n = (if n < 10 then [digitChar n] else decDigits (n div 10) @ [digitChar (n mod 10)])"

declare decDigits.simps [simp del]

text \<open>
  \<open>Number::toString\<close>: with \<open>s\<close> the digits of the number without trailing zeros, \<open>k\<close> their
  count and \<open>n\<close> the position of the decimal point, the number is written plainly when
  \<open>-6 < n \<le> 21\<close> and in exponent form otherwise.
\<close>

function stripZeros :: "nat \<Rightarrow> int \<Rightarrow> nat \<times> int" where
  "stripZeros s e = (if s \<noteq> 0 \<and> s mod 10 = 0 then stripZeros (s div 10) (e + 1) else (s, e))"
  by pat_completeness auto
termination
  by (relation "measure (\<lambda>(s, e). s)") auto

declare stripZeros.simps [simp del]

definition positiveToString :: "nat \<Rightarrow> int \<Rightarrow> string" where
  "positiveToString s0 e0 =
     (let (s, e) = stripZeros s0 e0;
          ds = decDigits s;
          k = int (length ds);
          n = k + e
      in if k \<le> n \<and> n \<le> 21 then ds @ replicate (nat (n - k)) (CHR ''0'')
         else if 0 < n \<and> n \<le> 21 then take (nat n) ds @ ''.'' @ drop (nat n) ds
         else if -6 < n \<and> n \<le> 0 then ''0.'' @ replicate (nat (- n)) (CHR ''0'') @ ds
         else let ex = n - 1;
                  es = (if ex < 0 then ''-'' else ''+'') @ decDigits (nat \<bar>ex\<bar>)
              in if k = 1 then ds @ ''e'' @ es
                 else take 1 ds @ ''.'' @ drop 1 ds @ ''e'' @ es)"

fun numberToString :: "jsnum \<Rightarrow> string" where
  "numberToString NaN = ''NaN''"
| "numberToString PosInf = ''Infinity''"
| "numberToString NegInf = ''-Infinity''"
| "numberToString (Dec m e) =
     (if m = 0 then ''0''
      else if m < 0 then ''-'' @ positiveToString (nat (- m)) e
      else positiveToString (nat m) e)"

subsection \<open>Rounding to binary64\<close>

text \<open>
  A positive rational is a pair of numerator and denominator. \<open>scaleDown base ab x\<close> is
  \<open>ab / base^x\<close>, and \<open>floorLog\<close> the integer part of the logarithm, found from the lengths
  of numerator and denominator.
\<close>

fun bitLength :: "nat \<Rightarrow> nat" where
  "bitLength n = (if n = 0 then 0 else Suc (bitLength (n div 2)))"

fun digitLength :: "nat \<Rightarrow> nat" where
  "digitLength n = (if n = 0 then 0 else Suc (digitLength (n div 10)))"

declare bitLength.simps [simp del] digitLength.simps [simp del]

definition scaleDown :: "nat \<Rightarrow> nat \<times> nat \<Rightarrow> int \<Rightarrow> nat \<times> nat" where
  "scaleDown base ab x =
     (if 0 \<le> x then (fst ab, snd ab * base ^ nat x) else (fst ab * base ^ nat (- x), snd ab))"

definition floorLog :: "nat \<Rightarrow> (nat \<Rightarrow> nat) \<Rightarrow> nat \<times> nat \<Rightarrow> int" where
  "floorLog base len ab =
     (let x = int (len (fst ab)) - int (len (snd ab));
          cd = scaleDown base ab x
      in if snd cd \<le> fst cd then x else x - 1)"

definition roundHalfEven :: "nat \<times> nat \<Rightarrow> nat" where
  "roundHalfEven ab =
     (let q = fst ab div snd ab; r = fst ab mod snd ab
      in if 2 * r < snd ab then q
         else if snd ab < 2 * r then q + 1
         else if even q then q else q + 1)"

text \<open>
  A positive binary64 value is \<open>m * 2^q\<close> with \<open>m < 2^53\<close> and \<open>-1074 \<le> q \<le> 971\<close>, where
  \<open>2^52 \<le> m\<close> unless \<open>q = -1074\<close>. The nearest one to a positive rational, ties to the even
  significand; what is too small becomes zero and what is too large infinity.
\<close>

datatype binary64 = BZero | BFinite nat int | BInfinite

definition nearestBinary64 :: "nat \<times> nat \<Rightarrow> binary64" where
  "nearestBinary64 ab =
     (if fst ab = 0 then BZero
      else let p = floorLog 2 bitLength ab;
               q = max (p - 52) (- 1074);
               m = roundHalfEven (scaleDown 2 ab q)
           in if m = 0 then BZero
              else if m = 2 ^ 53 then (if 971 < q + 1 then BInfinite else BFinite (2 ^ 52) (q + 1))
              else if 971 < q then BInfinite
              else BFinite m q)"

definition decimalFraction :: "nat \<Rightarrow> int \<Rightarrow> nat \<times> nat" where
  "decimalFraction s x = scaleDown 10 (s, 1) (- x)"

definition binaryFraction :: "nat \<Rightarrow> int \<Rightarrow> nat \<times> nat" where
  "binaryFraction m q = scaleDown 2 (m, 1) (- q)"

text \<open>
  The digits of a binary64 value \<open>m * 2^q\<close>: the fewest digits \<open>s\<close>, at most 17, such
  that \<open>s * 10^x\<close> rounds to the value, and of two such the nearer one. With \<open>k\<close> digits
  and the decimal point at \<open>n\<close>, so \<open>x = n - k\<close>, the candidates are the two neighbours of
  the value at the scale \<open>10^x\<close>.
\<close>

definition roundTrips :: "nat \<Rightarrow> int \<Rightarrow> nat \<Rightarrow> int \<Rightarrow> bool" where
  "roundTrips s x m q = (nearestBinary64 (decimalFraction s x) = BFinite m q)"

definition digitsFloor :: "nat \<Rightarrow> int \<Rightarrow> int \<Rightarrow> nat" where
  "digitsFloor m q x =
     fst (scaleDown 10 (binaryFraction m q) x) div snd (scaleDown 10 (binaryFraction m q) x)"

definition digitsNearest :: "nat \<Rightarrow> int \<Rightarrow> int \<Rightarrow> nat" where
  "digitsNearest m q x = roundHalfEven (scaleDown 10 (binaryFraction m q) x)"

function shortestDigits :: "nat \<Rightarrow> nat \<Rightarrow> int \<Rightarrow> int \<Rightarrow> nat \<times> int" where
  "shortestDigits k m q n =
     (if roundTrips (digitsFloor m q (n - int k)) (n - int k) m q
      then (if roundTrips (digitsFloor m q (n - int k) + 1) (n - int k) m q
            then (digitsNearest m q (n - int k), n - int k)
            else (digitsFloor m q (n - int k), n - int k))
      else if roundTrips (digitsFloor m q (n - int k) + 1) (n - int k) m q
      then (digitsFloor m q (n - int k) + 1, n - int k)
      else if k < 17 then shortestDigits (k + 1) m q n
      else (digitsFloor m q (n - int k), n - int k))"
  by pat_completeness auto
termination
  by (relation "measure (\<lambda>(k, m, q, n). 17 - k)") auto

declare shortestDigits.simps [simp del]

definition numberDigits :: "nat \<Rightarrow> int \<Rightarrow> nat \<times> int" where
  "numberDigits m q =
     (case shortestDigits 1 m q (floorLog 10 digitLength (binaryFraction m q) + 1) of
        (s, x) \<Rightarrow> stripZeros s x)"

text \<open>
  The Number for the mathematical value \<open>s * 10^x\<close>, negated when \<open>neg\<close>: what a parser
  returns for the digits it has read.
\<close>

definition toNumber :: "bool \<Rightarrow> nat \<Rightarrow> int \<Rightarrow> jsnum" where
  "toNumber neg s x =
     (case nearestBinary64 (decimalFraction s x) of
        BZero \<Rightarrow> Dec 0 0
      | BInfinite \<Rightarrow> (if neg then NegInf else PosInf)
      | BFinite m q \<Rightarrow>
          (case numberDigits m q of
             (s', x') \<Rightarrow> Dec (if neg then - int s' else int s') x'))"

text \<open>\<open>ToString\<close>, which also turns a value into a property key.\<close>

fun toString :: "jsval \<Rightarrow> string" where
  "toString JUndefined = ''undefined''"
| "toString JNull = ''null''"
| "toString (JBool b) = (if b then ''true'' else ''false'')"
| "toString (JNum x) = numberToString x"
| "toString (JStr s) = s"
| "toString (JFile name) = ''[object File]''"

subsection \<open>parseInt and parseFloat\<close>

definition digitVal :: "char \<Rightarrow> nat" where
  "digitVal c =
     (let n = (of_char c :: nat)
      in if 48 \<le> n \<and> n \<le> 57 then n - 48
         else if 97 \<le> n \<and> n \<le> 122 then n - 87
         else if 65 \<le> n \<and> n \<le> 90 then n - 55
         else 36)"

definition isRadixDigit :: "nat \<Rightarrow> char \<Rightarrow> bool" where
  "isRadixDigit R c = (digitVal c < R)"

definition digitsValue :: "nat \<Rightarrow> string \<Rightarrow> nat" where
  "digitsValue R Z = foldl (\<lambda>acc c. acc * R + digitVal c) 0 Z"

definition isSign :: "string \<Rightarrow> bool" where
  "isSign S = (S \<noteq> [] \<and> (hd S = CHR ''+'' \<or> hd S = CHR ''-''))"

definition isMinus :: "string \<Rightarrow> bool" where
  "isMinus S = (S \<noteq> [] \<and> hd S = CHR ''-'')"

text \<open>
  \<open>parseInt(string)\<close> with no radix: leading white space and a sign are skipped, \<open>0x\<close> selects
  radix 16, and the longest run of digits is the value, rounded to a Number; no digit at
  all gives \<open>NaN\<close>.
\<close>

definition parseIntString :: "string \<Rightarrow> jsnum" where
  "parseIntString inputString =
     (let S = trimStart inputString;
          S1 = (if isSign S then tl S else S);
          hex = (take 2 S1 = ''0x'' \<or> take 2 S1 = ''0X'');
          R = (if hex then 16 else 10 :: nat);
          S2 = (if hex then drop 2 S1 else S1);
          Z = takeWhile (isRadixDigit R) S2
      in if Z = [] then NaN else toNumber (isMinus S) (digitsValue R Z) 0)"

definition parseInt :: "jsval \<Rightarrow> jsval" where
  "parseInt v = JNum (parseIntString (toString v))"

text \<open>
  \<open>parseFloat(string)\<close>: the longest prefix that is a decimal literal (\<open>Infinity\<close>, or digits
  with an optional fraction and an optional exponent, after an optional sign), rounded
  to a Number; \<open>NaN\<close> when there is none.
\<close>

definition exponentPart :: "string \<Rightarrow> int" where
  "exponentPart r =
     (if r \<noteq> [] \<and> (hd r = CHR ''e'' \<or> hd r = CHR ''E'')
      then let r1 = tl r;
               r2 = (if isSign r1 then tl r1 else r1);
               ed = takeWhile (isRadixDigit 10) r2
           in if ed = [] then 0
              else if isMinus r1 then - int (digitsValue 10 ed)
              else int (digitsValue 10 ed)
      else 0)"

definition parseFloatString :: "string \<Rightarrow> jsnum" where
  "parseFloatString inputString =
     (let S = trimStart inputString;
          neg = isMinus S;
          S1 = (if isSign S then tl S else S)
      in if take 8 S1 = ''Infinity'' then (if neg then NegInf else PosInf)
         else let ip = takeWhile (isRadixDigit 10) S1;
                  r1 = dropWhile (isRadixDigit 10) S1;
                  dot = (r1 \<noteq> [] \<and> hd r1 = CHR ''.'');
                  fp = (if dot then takeWhile (isRadixDigit 10) (tl r1) else []);
                  r2 = (if dot then dropWhile (isRadixDigit 10) (tl r1) else r1)
              in if ip = [] \<and> fp = [] then NaN
                 else toNumber neg (digitsValue 10 (ip @ fp))
                        (exponentPart r2 - int (length fp)))"

definition parseFloat :: "jsval \<Rightarrow> jsval" where
  "parseFloat v = JNum (parseFloatString (toString v))"

section \<open>utils/formData.js\<close>

text \<open>
  The form record is an object read by field name; a missing property reads as \<open>undefined\<close>.
  The spread \<open>{...formData, [field]: value}\<close> is the map update \<open>formData(field \<mapsto> value)\<close>.
\<close>

type_synonym jsobject = "string \<rightharpoonup> jsval"

type_synonym formData = jsobject

definition getField :: "formData \<Rightarrow> string \<Rightarrow> jsval" where
  "getField formData field = (case formData field of None \<Rightarrow> JUndefined | Some v \<Rightarrow> v)"

definition initialFormData :: formData where
  "initialFormData = map_of
     [(''full_name'', JStr ''''),
      (''age'', JStr ''''),
      (''gender'', JStr ''''),
      (''employment_status'', JStr ''''),
      (''bank_statement'', JNull),
      (''total_monthly_inflow'', JStr ''''),
      (''total_monthly_outflow'', JStr ''''),
      (''transaction_frequency'', JStr ''''),
      (''salary_payment_detected'', JStr ''''),
      (''end_of_month_balance'', JStr ''''),
      (''highest_credit_amount'', JStr ''''),
      (''highest_debit_amount'', JStr ''''),
      (''gambling_transactions_count'', JStr ''''),
      (''loan_related_transactions_count'', JStr ''''),
      (''previous_loan_taken'', JStr ''''),
      (''previous_loan_amount'', JStr ''''),
      (''repayment_status'', JStr ''''),
      (''missed_payment_count'', JStr ''''),
      (''airtime_spend_per_month'', JStr ''''),
      (''data_subscription_spend'', JStr '''')]"

text \<open>\<open>formSteps.length\<close>: Demographics, Financial Data, Loan History, Behaviour.\<close>

definition formStepsLength :: int where
  "formStepsLength = 4"

section \<open>utils/validation.js\<close>

text \<open>
  A rule entry has its required fields, its optional fields and, on the loan-history step
  only, \<open>conditionalRequired\<close>: per trigger field an object from trigger value to the
  fields that value makes required.
\<close>

type_synonym conditions = "(string \<times> string list) list"

record stepRules =
  required :: "string list"
  conditionalRequired :: "(string \<times> conditions) list option"
  optional :: "string list"

definition validationRules :: "int \<Rightarrow> stepRules option" where
  "validationRules step =
     (if step = 0 then Some \<lparr>required = [''age'', ''gender'', ''employment_status''],
                              conditionalRequired = None,
                              optional = [''full_name'', ''occupation'', ''state_of_residence'']\<rparr>
      else if step = 1 then Some \<lparr>required = [''total_monthly_inflow'', ''total_monthly_outflow'',
                                     ''transaction_frequency'', ''salary_payment_detected'',
                                     ''end_of_month_balance'', ''highest_credit_amount'',
                                     ''highest_debit_amount''],
                                   conditionalRequired = None,
                                   optional = [''bank_statement'', ''gambling_transactions_count'',
                                     ''loan_related_transactions_count'']\<rparr>
      else if step = 2 then Some \<lparr>required = [''previous_loan_taken''],
                                   conditionalRequired = Some
                                     [(''previous_loan_taken'',
                                       [(''Yes'', [''previous_loan_amount'', ''repayment_status'',
                                                   ''missed_payment_count''])])],
                                   optional = []\<rparr>
      else if step = 3 then Some \<lparr>required = [''airtime_spend_per_month'', ''data_subscription_spend''],
                                   conditionalRequired = None,
                                   optional = []\<rparr>
      else None)"

definition fieldLabels :: "(string \<times> string) list" where
  "fieldLabels =
     [(''age'', ''Age''),
      (''gender'', ''Gender''),
      (''employment_status'', ''Employment Status''),
      (''full_name'', ''Full Name''),
      (''occupation'', ''Occupation''),
      (''state_of_residence'', ''State of Residence''),
      (''total_monthly_inflow'', ''Total Monthly Inflow''),
      (''total_monthly_outflow'', ''Total Monthly Outflow''),
      (''transaction_frequency'', ''Transaction Frequency''),
      (''salary_payment_detected'', ''Salary Payment Detected''),
      (''end_of_month_balance'', ''End of Month Balance''),
      (''highest_credit_amount'', ''Highest Credit Amount''),
      (''highest_debit_amount'', ''Highest Debit Amount''),
      (''gambling_transactions_count'', ''Gambling Transactions''),
      (''loan_related_transactions_count'', ''Loan-Related Transactions''),
      (''previous_loan_taken'', ''Previous Loan Taken''),
      (''previous_loan_amount'', ''Previous Loan Amount''),
      (''repayment_status'', ''Repayment Status''),
      (''missed_payment_count'', ''Missed Payment Count''),
      (''airtime_spend_per_month'', ''Airtime Spend per Month''),
      (''data_subscription_spend'', ''Data Subscription Spend'')]"

definition fieldLabel :: "string \<Rightarrow> string" where
  "fieldLabel field = (case map_of fieldLabels field of None \<Rightarrow> ''undefined'' | Some l \<Rightarrow> l)"

text \<open>
  \<open>isEmpty\<close>, test by test as the source has it: \<open>null\<close> or \<open>undefined\<close>; a string whose
  \<open>trim()\<close> is empty; a number that is \<open>NaN\<close>.
\<close>

definition isEmpty :: "jsval \<Rightarrow> bool" where
  "isEmpty v =
     (if v = JNull \<or> v = JUndefined then True
      else if (case v of JStr s \<Rightarrow> trim s = [] | _ \<Rightarrow> False) then True
      else if (case v of JNum x \<Rightarrow> x = NaN | _ \<Rightarrow> False) then True
      else False)"

text \<open>
  The error object: \<open>errors[field] = message\<close> overwrites an existing key in place and
  appends a new one; \<open>Object.keys\<close> lists the keys.
\<close>

type_synonym errorMap = "(string \<times> string) list"

fun setProp :: "errorMap \<Rightarrow> string \<Rightarrow> string \<Rightarrow> errorMap" where
  "setProp [] k v = [(k, v)]"
| "setProp ((k', v') # rest) k v = (if k' = k then (k, v) # rest else (k', v') # setProp rest k v)"

definition objectKeys :: "errorMap \<Rightarrow> string list" where
  "objectKeys obj = map fst obj"

text \<open>
  The property read \<open>conditions[triggerValue]\<close>. The key is \<open>ToString(triggerValue)\<close>. The
  object is written as a literal, so besides its own keys it answers to the names it
  inherits from \<open>Object.prototype\<close>, with a function or an object that is truthy and has
  no \<open>forEach\<close>.
\<close>

definition objectPrototypeKeys :: "string list" where
  "objectPrototypeKeys =
     [''constructor'', ''__defineGetter__'', ''__defineSetter__'', ''hasOwnProperty'',
      ''__lookupGetter__'', ''__lookupSetter__'', ''isPrototypeOf'', ''propertyIsEnumerable'',
      ''toString'', ''valueOf'', ''__proto__'', ''toLocaleString'']"

datatype property = Own "string list" | Inherited | Absent

definition getProp :: "conditions \<Rightarrow> jsval \<Rightarrow> property" where
  "getProp conds key =
     (case map_of conds (toString key) of
        Some fs \<Rightarrow> Own fs
      | None \<Rightarrow> if toString key \<in> set objectPrototypeKeys then Inherited else Absent)"

text \<open>The body shared by the two \<open>forEach\<close> calls over field names.\<close>

definition checkField :: "formData \<Rightarrow> string \<Rightarrow> errorMap \<Rightarrow> errorMap" where
  "checkField formData field errors =
     (if isEmpty (getField formData field)
      then setProp errors field (fieldLabel field @ '' is required'')
      else errors)"

definition checkFields :: "formData \<Rightarrow> string list \<Rightarrow> errorMap \<Rightarrow> errorMap" where
  "checkFields formData fs errors = fold (checkField formData) fs errors"

text \<open>
  The loop over \<open>Object.entries(rules.conditionalRequired)\<close>. An own property is an array
  and is walked; an inherited one passes the truthiness test and then has no \<open>forEach\<close>
  to call, which throws a \<open>TypeError\<close>; an absent one is skipped.
\<close>

fun checkConditional :: "formData \<Rightarrow> (string \<times> conditions) list \<Rightarrow> errorMap \<Rightarrow> jserror + errorMap" where
  "checkConditional formData [] errors = Inr errors"
| "checkConditional formData ((triggerField, conds) # rest) errors =
     (let triggerValue = getField formData triggerField
      in case getProp conds triggerValue of
           Absent \<Rightarrow> checkConditional formData rest errors
         | Inherited \<Rightarrow> Inl (TypeError ''conditions[triggerValue].forEach is not a function'')
         | Own fs \<Rightarrow> checkConditional formData rest (checkFields formData fs errors))"

record validation =
  isValid :: bool
  errors :: errorMap

text \<open>
  \<open>validateStep\<close>. A step with no rule entry makes \<open>rules\<close> undefined, and reading
  \<open>rules.required\<close> throws.
\<close>

definition validateStep :: "int \<Rightarrow> formData \<Rightarrow> jserror + validation" where
  "validateStep step formData =
     (case validationRules step of
        None \<Rightarrow> Inl (TypeError ''rules is undefined'')
      | Some rules \<Rightarrow>
          (let errors0 = checkFields formData (required rules) []
           in case (case conditionalRequired rules of
                      None \<Rightarrow> Inr errors0
                    | Some cr \<Rightarrow> checkConditional formData cr errors0) of
                Inl e \<Rightarrow> Inl e
              | Inr errors1 \<Rightarrow>
                  Inr \<lparr>isValid = (length (objectKeys errors1) = 0), errors = errors1\<rparr>))"

section \<open>The step components\<close>

text \<open>
  The collaborators of \<open>services/api.js\<close> are named by the calls made to them: the
  extraction of an uploaded file, the scoring of a payload, the feedback on a payload.
  Each answers with a JSON object or throws.
\<close>

datatype call = ExtractFinancialData string | PredictCredit jsobject | GetFeedback jsobject

text \<open>\<open>error.message || fallback\<close>.\<close>

definition messageOr :: "jserror \<Rightarrow> string \<Rightarrow> string" where
  "messageOr error fallback = (if message error \<noteq> [] then message error else fallback)"

text \<open>
  \<open>handleChange\<close> of UserDemographics and UserBehaviour, \<open>handleInputChange\<close> of FileUpload:
  the record handed to \<open>setFormData\<close>.
\<close>

definition handleChange :: "formData \<Rightarrow> string \<Rightarrow> jsval \<Rightarrow> formData" where
  "handleChange formData field value = formData(field \<mapsto> value)"

text \<open>\<open>handleChange\<close> of LoanHistory, which resets the conditional fields on \<open>No\<close>.\<close>

definition loanHandleChange :: "formData \<Rightarrow> string \<Rightarrow> jsval \<Rightarrow> formData" where
  "loanHandleChange formData field value =
     (if field = ''previous_loan_taken'' \<and> value = JStr ''No''
      then formData(field \<mapsto> value,
                    ''previous_loan_amount'' \<mapsto> JStr '''',
                    ''repayment_status'' \<mapsto> JStr ''N/A'',
                    ''missed_payment_count'' \<mapsto> JStr ''0'')
      else formData(field \<mapsto> value))"


definition loanTakenOptions :: "string list" where
  "loanTakenOptions = ['''', ''Yes'', ''No'']"




subsection \<open>FileUpload\<close>

record fileUpload =
  fileName :: string
  isExtracting :: bool
  extractionError :: "string option"
  extractionSuccess :: bool

text \<open>
  \<open>handleFileChange\<close> runs in two parts around its one \<open>await\<close>. The first stores the file
  in the record and calls the extraction; a file is named by its name.
\<close>

fun fileChangeStart :: "string \<Rightarrow> formData \<times> fileUpload \<Rightarrow> formData \<times> fileUpload" where
  "fileChangeStart file (formData, local) =
     (formData(''bank_statement'' \<mapsto> JFile file),
      local\<lparr>fileName := file, isExtracting := True, extractionError := None,
            extractionSuccess := False\<rparr>)"

text \<open>The updater \<open>prev => ({...prev, bank_statement: file, ...})\<close> of the success branch.\<close>

definition mergeExtracted :: "string \<Rightarrow> jsobject \<Rightarrow> formData \<Rightarrow> formData" where
  "mergeExtracted file extracted prev =
     prev(''bank_statement'' \<mapsto> JFile file,
          ''total_monthly_inflow'' \<mapsto> getField extracted ''total_monthly_inflow'',
          ''total_monthly_outflow'' \<mapsto> getField extracted ''total_monthly_outflow'',
          ''transaction_frequency'' \<mapsto> getField extracted ''transaction_frequency'',
          ''salary_payment_detected'' \<mapsto> getField extracted ''salary_payment_detected'',
          ''end_of_month_balance'' \<mapsto> getField extracted ''end_of_month_balance'',
          ''highest_credit_amount'' \<mapsto> getField extracted ''highest_credit_amount'',
          ''highest_debit_amount'' \<mapsto> getField extracted ''highest_debit_amount'',
          ''gambling_transactions_count'' \<mapsto> getField extracted ''gambling_transactions_count'',
          ''loan_related_transactions_count'' \<mapsto>
             getField extracted ''loan_related_transactions_count'')"

text \<open>
  The second part, once the extraction has answered: the merge on success, the message on
  failure, and \<open>finally\<close> the flag.
\<close>

fun fileChangeDone :: "string \<Rightarrow> jserror + jsobject \<Rightarrow> formData \<times> fileUpload \<Rightarrow> formData \<times> fileUpload" where
  "fileChangeDone file (Inr extracted) (prev, local) =
     (mergeExtracted file extracted prev,
      local\<lparr>extractionSuccess := True, isExtracting := False\<rparr>)"
| "fileChangeDone file (Inl error) (prev, local) =
     (prev,
      local\<lparr>extractionError := Some (messageOr error ''Failed to extract data. Please fill manually.''),
            isExtracting := False\<rparr>)"

text \<open>
  The whole handler, for an extraction that answers \<open>extractFinancialData file\<close>, with the
  calls it made. No file chosen: it returns at once.
\<close>

fun handleFileChange ::
  "(string \<Rightarrow> jserror + jsobject) \<Rightarrow> string option \<Rightarrow> formData \<times> fileUpload
   \<Rightarrow> (formData \<times> fileUpload) \<times> call list" where
  "handleFileChange extractFinancialData None s = (s, [])"
| "handleFileChange extractFinancialData (Some file) s =
     (fileChangeDone file (extractFinancialData file) (fileChangeStart file s),
      [ExtractFinancialData file])"

section \<open>pages/CreditForm.jsx\<close>

text \<open>The payload of the scoring call, field by field as \<open>handleSubmit\<close> builds it.\<close>

definition predictionData :: "formData \<Rightarrow> jsobject" where
  "predictionData formData = map_of
     [(''age'', orElse (parseInt (getField formData ''age'')) zero),
      (''gender'', getField formData ''gender''),
      (''employment_status'', getField formData ''employment_status''),
      (''total_monthly_inflow'', orElse (parseFloat (getField formData ''total_monthly_inflow'')) zero),
      (''total_monthly_outflow'', orElse (parseFloat (getField formData ''total_monthly_outflow'')) zero),
      (''transaction_frequency'', orElse (parseInt (getField formData ''transaction_frequency'')) zero),
      (''salary_payment_detected'', orElse (getField formData ''salary_payment_detected'') (JStr ''No'')),
      (''end_of_month_balance'', orElse (parseFloat (getField formData ''end_of_month_balance'')) zero),
      (''highest_credit_amount'', orElse (parseFloat (getField formData ''highest_credit_amount'')) zero),
      (''highest_debit_amount'', orElse (parseFloat (getField formData ''highest_debit_amount'')) zero),
      (''gambling_transactions_count'',
         orElse (parseInt (getField formData ''gambling_transactions_count'')) zero),
      (''loan_related_transactions_count'',
         orElse (parseInt (getField formData ''loan_related_transactions_count'')) zero),
      (''previous_loan_taken'', orElse (getField formData ''previous_loan_taken'') (JStr ''No'')),
      (''previous_loan_amount'', orElse (parseFloat (getField formData ''previous_loan_amount'')) zero),
      (''repayment_status'', orElse (getField formData ''repayment_status'') (JStr ''N/A'')),
      (''missed_payment_count'', orElse (parseInt (getField formData ''missed_payment_count'')) zero),
      (''airtime_spend_per_month'', orElse (parseFloat (getField formData ''airtime_spend_per_month'')) zero),
      (''data_subscription_spend'', orElse (parseFloat (getField formData ''data_subscription_spend'')) zero)]"

text \<open>The scoring fields kept as \<open>results\<close>, and the payload of the feedback call.\<close>

definition predictionResults :: "jsobject \<Rightarrow> jsobject" where
  "predictionResults response = map_of
     [(''loan_defaulted'', getField response ''loan_defaulted''),
      (''credit_score_generated'', getField response ''credit_score''),
      (''risk_category'', getField response ''risk_category''),
      (''default_probability'', getField response ''default_probability'')]"

definition feedbackData :: "formData \<Rightarrow> jsobject \<Rightarrow> jsobject" where
  "feedbackData formData response = map_of
     [(''name'', orElse (getField formData ''full_name'') (JStr '''')),
      (''age'', orElse (parseInt (getField formData ''age'')) zero),
      (''employment_status'', getField formData ''employment_status''),
      (''total_monthly_inflow'', orElse (parseFloat (getField formData ''total_monthly_inflow'')) zero),
      (''total_monthly_outflow'', orElse (parseFloat (getField formData ''total_monthly_outflow'')) zero),
      (''end_of_month_balance'', orElse (parseFloat (getField formData ''end_of_month_balance'')) zero),
      (''salary_payment_detected'', orElse (getField formData ''salary_payment_detected'') (JStr ''No'')),
      (''transaction_frequency'', orElse (parseInt (getField formData ''transaction_frequency'')) zero),
      (''gambling_transactions_count'',
         orElse (parseInt (getField formData ''gambling_transactions_count'')) zero),
      (''previous_loan_taken'', orElse (getField formData ''previous_loan_taken'') (JStr ''No'')),
      (''repayment_status'', orElse (getField formData ''repayment_status'') (JStr ''N/A'')),
      (''missed_payment_count'', orElse (parseInt (getField formData ''missed_payment_count'')) zero),
      (''credit_score'', getField response ''credit_score''),
      (''risk_category'', getField response ''risk_category''),
      (''default_probability'', getField response ''default_probability'')]"

text \<open>The eight \<open>useState\<close> cells of the component, with their initial values.\<close>

record formState =
  currentStep :: int
  showResults :: bool
  formData :: formData
  results :: "jsobject option"
  feedback :: jsval
  isSubmitting :: bool
  submitError :: "string option"
  stepErrors :: errorMap

definition initialState :: formState where
  "initialState =
     \<lparr>currentStep = 0, showResults = False, formData = initialFormData, results = None,
      feedback = JNull, isSubmitting = False, submitError = None, stepErrors = []\<rparr>"

text \<open>
  \<open>handleNext\<close> and \<open>handlePrevious\<close>. An exception of \<open>validateStep\<close> leaves the handler
  before any state is set.
\<close>

definition handleNext :: "formState \<Rightarrow> jserror + formState" where
  "handleNext st =
     (case validateStep (currentStep st) (formData st) of
        Inl e \<Rightarrow> Inl e
      | Inr v \<Rightarrow>
          if \<not> isValid v then Inr (st\<lparr>stepErrors := errors v\<rparr>)
          else if currentStep st < formStepsLength - 1
          then Inr (st\<lparr>stepErrors := [], currentStep := currentStep st + 1\<rparr>)
          else Inr (st\<lparr>stepErrors := []\<rparr>))"

definition handlePrevious :: "formState \<Rightarrow> formState" where
  "handlePrevious st =
     (if currentStep st > 0
      then st\<lparr>stepErrors := [], currentStep := currentStep st - 1\<rparr>
      else st\<lparr>stepErrors := []\<rparr>)"

text \<open>
  \<open>handleSubmit\<close> runs in three parts around its two \<open>await\<close>s. The first validates and,
  when the step is valid, sets the flags and calls the scoring service with the payload.
\<close>

definition submitStart :: "formState \<Rightarrow> jserror + formState \<times> jsobject option" where
  "submitStart st =
     (case validateStep (currentStep st) (formData st) of
        Inl e \<Rightarrow> Inl e
      | Inr v \<Rightarrow>
          if \<not> isValid v then Inr (st\<lparr>stepErrors := errors v\<rparr>, None)
          else Inr (st\<lparr>isSubmitting := True, submitError := None, stepErrors := []\<rparr>,
                    Some (predictionData (formData st))))"

text \<open>
  The second part, once the scoring has answered. A failure goes to the outer \<open>catch\<close> and
  \<open>finally\<close>; a response is stored and the feedback service is called with a payload built
  from the record the handler was started with and from the response.
\<close>

fun afterPredict :: "formData \<Rightarrow> jserror + jsobject \<Rightarrow> formState \<Rightarrow> formState \<times> jsobject option" where
  "afterPredict captured (Inl error) st =
     (st\<lparr>submitError := Some (messageOr error ''Failed to get prediction. Please try again.''),
         isSubmitting := False\<rparr>,
      None)"
| "afterPredict captured (Inr response) st =
     (st\<lparr>results := Some (predictionResults response)\<rparr>,
      Some (feedbackData captured response))"

text \<open>
  The third part, once the feedback has answered: the inner \<open>catch\<close> stores \<open>null\<close>, and
  either way the results are shown and \<open>finally\<close> clears the flag.
\<close>

fun afterFeedback :: "jserror + jsobject \<Rightarrow> formState \<Rightarrow> formState" where
  "afterFeedback (Inr feedbackResponse) st =
     st\<lparr>feedback := getField feedbackResponse ''feedback'', showResults := True,
        isSubmitting := False\<rparr>"
| "afterFeedback (Inl feedbackError) st =
     st\<lparr>feedback := JNull, showResults := True, isSubmitting := False\<rparr>"

text \<open>
  The whole handler, for services that answer \<open>predictCredit data\<close> and
  \<open>getFeedback data\<close>, with the calls it made in their order.
\<close>

definition handleSubmit ::
  "(jsobject \<Rightarrow> jserror + jsobject) \<Rightarrow> (jsobject \<Rightarrow> jserror + jsobject) \<Rightarrow> formState
   \<Rightarrow> jserror + formState \<times> call list" where
  "handleSubmit predictCredit getFeedback st =
     (case submitStart st of
        Inl e \<Rightarrow> Inl e
      | Inr (st1, None) \<Rightarrow> Inr (st1, [])
      | Inr (st1, Some data) \<Rightarrow>
          (case afterPredict (formData st) (predictCredit data) st1 of
             (st2, None) \<Rightarrow> Inr (st2, [PredictCredit data])
           | (st2, Some data2) \<Rightarrow>
               Inr (afterFeedback (getFeedback data2) st2, [PredictCredit data, GetFeedback data2])))"

definition handleNewAssessment :: "formState \<Rightarrow> formState" where
  "handleNewAssessment st =
     st\<lparr>showResults := False, currentStep := 0, formData := initialFormData, results := None,
        feedback := JNull, stepErrors := []\<rparr>"

text \<open>
  What is rendered: the result card with its New Assessment button when
  \<open>showResults && results\<close>, the form with its buttons otherwise.
\<close>

definition resultsView :: "formState \<Rightarrow> bool" where
  "resultsView st = (showResults st \<and> results st \<noteq> None)"

section \<open>A session of the form\<close>

text \<open>
  One mounted form is driven by events, each handled to its end before the next. A click
  reaches its handler only when the button is rendered and enabled: Previous is disabled
  on step 0; Next is rendered before the last step and Submit on the last step, where it
  is \<open>disabled={isSubmitting}\<close>; New Assessment belongs to the result card. A handler that
  throws leaves the state as it was. A submission that waits for a service is kept with
  the record it was started with, and every call to a service is logged. Field changes
  and extraction results may arrive with any field and value.
\<close>

datatype inflight = AwaitPredict formData | AwaitFeedback

record session =
  ui :: formState
  pending :: "inflight list"
  calls :: "call list"

datatype event =
    Change string jsval
  | LoanChange string jsval
  | FileChosen string
  | ExtractResolved string "jserror + jsobject"
  | ClickNext
  | ClickPrevious
  | ClickSubmit
  | PredictResolved "jserror + jsobject"
  | FeedbackResolved "jserror + jsobject"
  | ClickNewAssessment

definition initialSession :: session where
  "initialSession = \<lparr>ui = initialState, pending = [], calls = []\<rparr>"

definition setFormData :: "formData \<Rightarrow> session \<Rightarrow> session" where
  "setFormData fd s = s\<lparr>ui := (ui s)\<lparr>formData := fd\<rparr>\<rparr>"

fun handleEvent :: "event \<Rightarrow> session \<Rightarrow> session" where
  "handleEvent (Change field value) s =
     (if resultsView (ui s) then s
      else setFormData (handleChange (formData (ui s)) field value) s)"
| "handleEvent (LoanChange field value) s =
     (if resultsView (ui s) then s
      else setFormData (loanHandleChange (formData (ui s)) field value) s)"
| "handleEvent (FileChosen file) s =
     (if resultsView (ui s) then s
      else (setFormData ((formData (ui s))(''bank_statement'' \<mapsto> JFile file)) s)
             \<lparr>calls := calls s @ [ExtractFinancialData file]\<rparr>)"
| "handleEvent (ExtractResolved file (Inr extracted)) s =
     setFormData (mergeExtracted file extracted (formData (ui s))) s"
| "handleEvent (ExtractResolved file (Inl error)) s = s"
| "handleEvent ClickNext s =
     (if resultsView (ui s) \<or> currentStep (ui s) = formStepsLength - 1 then s
      else case handleNext (ui s) of Inl e \<Rightarrow> s | Inr st \<Rightarrow> s\<lparr>ui := st\<rparr>)"
| "handleEvent ClickPrevious s =
     (if resultsView (ui s) \<or> currentStep (ui s) = 0 then s
      else s\<lparr>ui := handlePrevious (ui s)\<rparr>)"
| "handleEvent ClickSubmit s =
     (if resultsView (ui s) \<or> currentStep (ui s) \<noteq> formStepsLength - 1 \<or> isSubmitting (ui s)
      then s
      else case submitStart (ui s) of
             Inl e \<Rightarrow> s
           | Inr (st, None) \<Rightarrow> s\<lparr>ui := st\<rparr>
           | Inr (st, Some data) \<Rightarrow>
               s\<lparr>ui := st, pending := pending s @ [AwaitPredict (formData (ui s))],
                 calls := calls s @ [PredictCredit data]\<rparr>)"
| "handleEvent (PredictResolved outcome) s =
     (case pending s of
        AwaitPredict captured # rest \<Rightarrow>
          (case afterPredict captured outcome (ui s) of
             (st, None) \<Rightarrow> s\<lparr>ui := st, pending := rest\<rparr>
           | (st, Some data2) \<Rightarrow>
               s\<lparr>ui := st, pending := AwaitFeedback # rest,
                 calls := calls s @ [GetFeedback data2]\<rparr>)
      | _ \<Rightarrow> s)"
| "handleEvent (FeedbackResolved outcome) s =
     (case pending s of
        AwaitFeedback # rest \<Rightarrow> s\<lparr>ui := afterFeedback outcome (ui s), pending := rest\<rparr>
      | _ \<Rightarrow> s)"
| "handleEvent ClickNewAssessment s =
     (if resultsView (ui s) then s\<lparr>ui := handleNewAssessment (ui s)\<rparr> else s)"

definition run :: "event list \<Rightarrow> session \<Rightarrow> session" where
  "run es s = fold handleEvent es s"

section \<open>The properties, in the words of the specification\<close>

text \<open>
  The fields a step requires now: its required set, together with the additional fields
  of every conditional rule whose trigger field equals its trigger value.
\<close>

definition requiredNow :: "int \<Rightarrow> formData \<Rightarrow> string list" where
  "requiredNow step fd =
     (case validationRules step of
        None \<Rightarrow> []
      | Some rules \<Rightarrow>
          required rules @
          concat (map (\<lambda>(triggerField, conds).
                    concat (map (\<lambda>(triggerValue, additionalRequiredFields).
                              if getField fd triggerField = JStr triggerValue
                              then additionalRequiredFields else []) conds))
                  (case conditionalRequired rules of None \<Rightarrow> [] | Some cr \<Rightarrow> cr)))"

text \<open>
  A value is empty exactly when it is \<open>null\<close>, \<open>undefined\<close>, a string that is empty or
  made of white space only, or the number \<open>NaN\<close>.
\<close>

fun emptyValue :: "jsval \<Rightarrow> bool" where
  "emptyValue JNull = True"
| "emptyValue JUndefined = True"
| "emptyValue (JStr s) = (s = [] \<or> list_all isWhiteSpace s)"
| "emptyValue (JNum x) = (x = NaN)"
| "emptyValue _ = False"

text \<open>
  A form record holds in \<open>previous_loan_taken\<close> what the form writes there: the empty
  string of the initial record, or an option of the select.
\<close>

definition loanTakenWritten :: "formData \<Rightarrow> bool" where
  "loanTakenWritten fd = (getField fd ''previous_loan_taken'' \<in> JStr ` set loanTakenOptions)"

text \<open>
  The events that the rendered form can raise on \<open>previous_loan_taken\<close>: the inputs of
  FileUpload and UserDemographics are bound to other fields, and the select of
  LoanHistory offers its options.
\<close>

fun formEvent :: "event \<Rightarrow> bool" where
  "formEvent (Change field v) = (field \<noteq> ''previous_loan_taken'')"
| "formEvent (LoanChange field v) =
     (field = ''previous_loan_taken'' \<longrightarrow> v \<in> JStr ` set loanTakenOptions)"
| "formEvent _ = True"




text \<open>The result object of \<open>validateStep\<close> for a given error object.\<close>

definition validationOf :: "errorMap \<Rightarrow> validation" where
  "validationOf errs = \<lparr>isValid = (length (objectKeys errs) = 0), errors = errs\<rparr>"

text \<open>The states of the wizard that the submission ends in, read off the rendering.\<close>

definition resultsReady :: "formState \<Rightarrow> bool" where
  "resultsReady st = (resultsView st \<and> \<not> isSubmitting st \<and> submitError st = None)"

definition submitFailed :: "formState \<Rightarrow> bool" where
  "submitFailed st = (\<not> resultsView st \<and> \<not> isSubmitting st \<and> submitError st \<noteq> None)"

subsection \<open>Sample records and services\<close>

definition loanYesRecord :: formData where
  "loanYesRecord = initialFormData(''previous_loan_taken'' \<mapsto> JStr ''Yes'',
                                   ''previous_loan_amount'' \<mapsto> JNum (Dec 0 0))"

definition loanNoRecord :: formData where
  "loanNoRecord = initialFormData(''previous_loan_taken'' \<mapsto> JStr ''No'',
                                  ''previous_loan_amount'' \<mapsto> JStr ''   '',
                                  ''missed_payment_count'' \<mapsto> JNum NaN)"

definition loanInheritedRecord :: formData where
  "loanInheritedRecord = initialFormData(''previous_loan_taken'' \<mapsto> JStr ''constructor'')"

definition sampleRecord :: formData where
  "sampleRecord = initialFormData(''age'' \<mapsto> JStr ''abc'',
                                  ''total_monthly_inflow'' \<mapsto> JNum (Dec 50005 (- 1)),
                                  ''transaction_frequency'' \<mapsto> JStr ''12 per month'',
                                  ''gambling_transactions_count'' \<mapsto> JStr '''',
                                  ''airtime_spend_per_month'' \<mapsto> JStr ''500'',
                                  ''data_subscription_spend'' \<mapsto> JStr ''0'')"


definition readyState :: formState where
  "readyState = initialState\<lparr>currentStep := 3, formData := sampleRecord\<rparr>"

definition scoreResponse :: jsobject where
  "scoreResponse = map_of
     [(''loan_defaulted'', JNum (Dec 0 0)),
      (''credit_score'', JNum (Dec 72 0)),
      (''risk_category'', JStr ''Low''),
      (''default_probability'', JNum (Dec 12 (- 2)))]"

definition scoringService :: "jsobject \<Rightarrow> jserror + jsobject" where
  "scoringService data = Inr scoreResponse"

definition failingService :: "jsobject \<Rightarrow> jserror + jsobject" where
  "failingService data = Inl (Error ''Service unavailable'')"

definition failingExtraction :: "string \<Rightarrow> jserror + jsobject" where
  "failingExtraction file = Inl (Error ''Extraction failed'')"

definition idleUpload :: fileUpload where
  "idleUpload = \<lparr>fileName = '''', isExtracting = False, extractionError = None,
                 extractionSuccess = False\<rparr>"

subsection \<open>What holds in every state of a session\<close>

text \<open>
  The step index is in range; at most one submission waits for a service, and one waits
  exactly while \<open>isSubmitting\<close> is set; while one waits, the result card is not shown and
  no submit error is set; the result card is shown only with results, without a submit
  error and with the flag cleared.
\<close>

definition sessionInv :: "session \<Rightarrow> bool" where
  "sessionInv s =
     (0 \<le> currentStep (ui s) \<and> currentStep (ui s) \<le> formStepsLength - 1
      \<and> length (pending s) \<le> 1
      \<and> (isSubmitting (ui s) \<longleftrightarrow> pending s \<noteq> [])
      \<and> (pending s \<noteq> [] \<longrightarrow> \<not> showResults (ui s) \<and> submitError (ui s) = None)
      \<and> (pending s = [AwaitFeedback] \<longrightarrow> results (ui s) \<noteq> None)
      \<and> (showResults (ui s) \<longrightarrow> results (ui s) \<noteq> None \<and> submitError (ui s) = None))"

text \<open>A session that fills the four steps and submits, and the answers of the services.\<close>

definition sampleExtracted :: jsobject where
  "sampleExtracted = map_of
     [(''total_monthly_inflow'', JNum (Dec 5000 0)),
      (''total_monthly_outflow'', JNum (Dec 3000 0)),
      (''transaction_frequency'', JNum (Dec 42 0)),
      (''salary_payment_detected'', JStr ''Yes''),
      (''end_of_month_balance'', JNum (Dec 0 0)),
      (''highest_credit_amount'', JNum (Dec 25005 (- 1))),
      (''highest_debit_amount'', JNum (Dec 1200 0)),
      (''gambling_transactions_count'', JNum (Dec 0 0)),
      (''loan_related_transactions_count'', JNum (Dec 1 0))]"

definition fillAndSubmit :: "event list" where
  "fillAndSubmit =
     [Change ''age'' (JStr ''30''), Change ''gender'' (JStr ''Female''),
      Change ''employment_status'' (JStr ''Employed''), ClickNext,
      FileChosen ''statement.pdf'', ExtractResolved ''statement.pdf'' (Inr sampleExtracted),
      ClickNext,
      LoanChange ''previous_loan_taken'' (JStr ''No''), ClickNext,
      Change ''airtime_spend_per_month'' (JStr ''500''),
      Change ''data_subscription_spend'' (JStr ''0''), ClickSubmit]"

definition scoredWithoutFeedback :: "event list" where
  "scoredWithoutFeedback =
     fillAndSubmit @ [PredictResolved (Inr scoreResponse),
                      FeedbackResolved (Inl (Error ''Service unavailable''))]"

section \<open>Validation\<close>

subsection \<open>Emptiness\<close>

lemma trim_empty_iff: "trim s = [] \<longleftrightarrow> list_all isWhiteSpace s"
proof
  assume "list_all isWhiteSpace s"
  then have "dropWhile isWhiteSpace s = []"
    by (simp add: list_all_iff)
  then show "trim s = []"
    by (simp add: trim_def trimStart_def del: dropWhile_eq_Nil_conv)
next
  assume "trim s = []"
  then have all: "\<forall>c \<in> set (dropWhile isWhiteSpace s). isWhiteSpace c"
    by (simp add: trim_def trimStart_def)
  have "dropWhile isWhiteSpace s = []"
  proof (rule ccontr)
    assume ne: "dropWhile isWhiteSpace s \<noteq> []"
    then have "\<not> isWhiteSpace (hd (dropWhile isWhiteSpace s))"
      by (rule hd_dropWhile)
    moreover have "hd (dropWhile isWhiteSpace s) \<in> set (dropWhile isWhiteSpace s)"
      using ne by (rule hd_in_set)
    ultimately show False using all by blast
  qed
  then show "list_all isWhiteSpace s"
    by (simp add: list_all_iff)
qed

lemma isEmpty_emptyValue: "isEmpty v = emptyValue v"
  by (cases v) (auto simp: isEmpty_def trim_empty_iff)

subsection \<open>The keys of the error object\<close>

lemma keys_setProp: "set (objectKeys (setProp errs k v)) = insert k (set (objectKeys errs))"
proof (induction errs)
  case Nil
  then show ?case by (simp add: objectKeys_def)
next
  case (Cons p errs)
  obtain k' v' where p: "p = (k', v')" by (cases p)
  from Cons show ?case unfolding p by (cases "k' = k") (auto simp: objectKeys_def)
qed

lemma keys_checkFields:
  "set (objectKeys (checkFields fd fs errs)) =
     set (objectKeys errs) \<union> {f \<in> set fs. isEmpty (getField fd f)}"
  unfolding checkFields_def
  by (induction fs arbitrary: errs) (auto simp: checkField_def keys_setProp)

lemma checkFields_append:
  "checkFields fd (fs @ gs) errs = checkFields fd gs (checkFields fd fs errs)"
  by (simp add: checkFields_def)

lemma validationOf_keys:
  "isValid (validationOf (checkFields fd fs [])) \<longleftrightarrow>
     (\<forall>f \<in> set fs. \<not> emptyValue (getField fd f))"
  "set (objectKeys (errors (validationOf (checkFields fd fs [])))) =
     {f \<in> set fs. emptyValue (getField fd f)}"
proof -
  have k: "set (objectKeys (checkFields fd fs [])) =
             {f \<in> set fs. emptyValue (getField fd f)}"
    using keys_checkFields [of fd fs "[]"] by (simp add: objectKeys_def isEmpty_emptyValue)
  show "set (objectKeys (errors (validationOf (checkFields fd fs [])))) =
          {f \<in> set fs. emptyValue (getField fd f)}"
    using k by (simp add: validationOf_def)
  have "isValid (validationOf (checkFields fd fs [])) \<longleftrightarrow>
          set (objectKeys (checkFields fd fs [])) = {}"
    by (simp add: validationOf_def)
  then show "isValid (validationOf (checkFields fd fs [])) \<longleftrightarrow>
               (\<forall>f \<in> set fs. \<not> emptyValue (getField fd f))"
    unfolding k by blast
qed

subsection \<open>A number never prints as a trigger value or an inherited name\<close>

lemma digitChar_digit: "d < 10 \<Longrightarrow> digitChar d \<in> set ''0123456789''"
  unfolding digitChar_def by (rule nth_mem) simp

lemma decDigits_head: "decDigits n \<noteq> [] \<and> hd (decDigits n) \<in> set ''0123456789''"
proof (induction n rule: decDigits.induct)
  case (1 n)
  show ?case
  proof (cases "n < 10")
    case True
    then show ?thesis
      using digitChar_digit [of n] by (simp add: decDigits.simps [of n])
  next
    case False
    with 1 show ?thesis
      by (simp add: decDigits.simps [of n])
  qed
qed

lemma positiveToString_head:
  "positiveToString s e \<noteq> [] \<and> hd (positiveToString s e) \<in> set ''0123456789''"
proof -
  obtain s' e' where st: "stripZeros s e = (s', e')" by (cases "stripZeros s e")
  have ds: "decDigits s' \<noteq> []" and hd: "hd (decDigits s') \<in> set ''0123456789''"
    using decDigits_head [of s'] by simp_all
  have tk: "0 < k \<Longrightarrow> take k (decDigits s') \<noteq> [] \<and> hd (take k (decDigits s')) = hd (decDigits s')" for k
    using ds by (cases "decDigits s'"; cases k) simp_all
  show ?thesis
    using ds hd tk [of 1] tk [of "nat (int (length (decDigits s')) + e')"]
    by (simp add: positiveToString_def st Let_def)
qed

lemma numberToString_head:
  "numberToString x \<noteq> [] \<and> hd (numberToString x) \<in> set ''0123456789-NI''"
proof (cases x)
  case (Dec m e)
  then show ?thesis
    using positiveToString_head [of "nat (- m)" e] positiveToString_head [of "nat m" e]
    by auto
qed simp_all

lemma head_not_key:
  "s \<noteq> [] \<Longrightarrow> hd s \<in> set ''0123456789-NI'' \<Longrightarrow> s \<notin> set objectPrototypeKeys \<and> s \<noteq> ''Yes''"
  by (auto simp: objectPrototypeKeys_def)

lemma numberToString_not_key:
  "numberToString x \<notin> set objectPrototypeKeys \<and> numberToString x \<noteq> ''Yes''"
  using numberToString_head [of x] head_not_key [of "numberToString x"] by blast

lemma toString_Yes: "toString v = ''Yes'' \<longleftrightarrow> v = JStr ''Yes''"
  using numberToString_not_key by (cases v) auto

lemma toString_inherited:
  "toString v \<in> set objectPrototypeKeys \<Longrightarrow> \<exists>s. v = JStr s"
proof (cases v)
  case (JNum x)
  assume "toString v \<in> set objectPrototypeKeys"
  with JNum numberToString_not_key [of x] show ?thesis by simp
qed (auto simp: objectPrototypeKeys_def split: if_splits)

subsection \<open>validateStep, step by step\<close>

lemma validateStep_loan:
  "validateStep 2 fd =
     (if getField fd ''previous_loan_taken'' = JStr ''Yes''
      then Inr (validationOf (checkFields fd
                  [''previous_loan_amount'', ''repayment_status'', ''missed_payment_count'']
                  (checkFields fd [''previous_loan_taken''] [])))
      else if toString (getField fd ''previous_loan_taken'') \<in> set objectPrototypeKeys
      then Inl (TypeError ''conditions[triggerValue].forEach is not a function'')
      else Inr (validationOf (checkFields fd [''previous_loan_taken''] [])))"
proof -
  have yes: "''Yes'' \<notin> set objectPrototypeKeys"
    by (simp add: objectPrototypeKeys_def)
  show ?thesis
    using yes
    by (simp add: validateStep_def validationRules_def getProp_def Let_def validationOf_def
        toString_Yes)
qed

lemma validateStep_other:
  "step \<in> {0, 1, 3} \<Longrightarrow>
   validateStep step fd =
     Inr (validationOf (checkFields fd (requiredNow step fd) []))"
  by (auto simp: validateStep_def validationRules_def requiredNow_def Let_def validationOf_def)

lemma requiredNow_loan:
  "requiredNow 2 fd =
     (if getField fd ''previous_loan_taken'' = JStr ''Yes''
      then [''previous_loan_taken'', ''previous_loan_amount'', ''repayment_status'',
            ''missed_payment_count'']
      else [''previous_loan_taken''])"
  by (simp add: requiredNow_def validationRules_def)

lemma validateStep_required:
  assumes "step \<in> {0, 1, 2, 3}"
    and "step = 2 \<longrightarrow>
           toString (getField fd ''previous_loan_taken'') \<notin> set objectPrototypeKeys"
  shows "validateStep step fd =
           Inr (validationOf (checkFields fd (requiredNow step fd) []))"
proof (cases "step = 2")
  case True
  have "checkFields fd
          [''previous_loan_amount'', ''repayment_status'', ''missed_payment_count'']
          (checkFields fd [''previous_loan_taken''] []) =
        checkFields fd
          [''previous_loan_taken'', ''previous_loan_amount'', ''repayment_status'',
           ''missed_payment_count''] []"
    by (simp add: checkFields_def)
  with True assms(2) show ?thesis
    by (simp add: validateStep_loan requiredNow_loan)
next
  case False
  with assms(1) have "step \<in> {0, 1, 3}" by auto
  then show ?thesis by (rule validateStep_other)
qed

lemma loanYesRecord_fields:
  "getField loanYesRecord ''previous_loan_taken'' = JStr ''Yes''"
  "getField loanYesRecord ''previous_loan_amount'' = JNum (Dec 0 0)"
  "getField loanYesRecord ''repayment_status'' = JStr ''''"
  "getField loanYesRecord ''missed_payment_count'' = JStr ''''"
  by (simp_all add: loanYesRecord_def getField_def initialFormData_def)

lemma loanNoRecord_fields:
  "getField loanNoRecord ''previous_loan_taken'' = JStr ''No''"
  "getField loanNoRecord ''previous_loan_amount'' = JStr ''   ''"
  "getField loanNoRecord ''repayment_status'' = JStr ''''"
  "getField loanNoRecord ''missed_payment_count'' = JNum NaN"
  by (simp_all add: loanNoRecord_def getField_def initialFormData_def)

lemma loanInheritedRecord_fields:
  "getField loanInheritedRecord ''previous_loan_taken'' = JStr ''constructor''"
  by (simp add: loanInheritedRecord_def getField_def)

subsection \<open>What the form writes into the trigger field\<close>

lemma loanTakenWritten_cases:
  "loanTakenWritten fd \<longleftrightarrow>
     getField fd ''previous_loan_taken'' = JStr ''''
     \<or> getField fd ''previous_loan_taken'' = JStr ''Yes''
     \<or> getField fd ''previous_loan_taken'' = JStr ''No''"
  by (auto simp: loanTakenWritten_def loanTakenOptions_def)

lemma loanTakenWritten_not_inherited:
  "loanTakenWritten fd \<Longrightarrow>
   toString (getField fd ''previous_loan_taken'') \<notin> set objectPrototypeKeys"
  unfolding loanTakenWritten_cases by (auto simp: objectPrototypeKeys_def)

text \<open>
  The writers of the record keep it so: the initial record and \<open>handleNewAssessment\<close>,
  the select of LoanHistory, a change of any other field, and the merge of an extraction.
\<close>

lemma loanTakenWritten_writers:
  "loanTakenWritten initialFormData"
  "loanTakenWritten (formData (handleNewAssessment st))"
  "v \<in> set loanTakenOptions \<Longrightarrow>
     loanTakenWritten (loanHandleChange fd ''previous_loan_taken'' (JStr v))"
  "field \<noteq> ''previous_loan_taken'' \<Longrightarrow> loanTakenWritten fd \<Longrightarrow>
     loanTakenWritten (loanHandleChange fd field x)"
  "field \<noteq> ''previous_loan_taken'' \<Longrightarrow> loanTakenWritten fd \<Longrightarrow>
     loanTakenWritten (handleChange fd field x)"
  "loanTakenWritten fd \<Longrightarrow> loanTakenWritten (mergeExtracted file extracted fd)"
  "loanTakenWritten fd \<Longrightarrow> loanTakenWritten (fd(''bank_statement'' \<mapsto> JFile file))"
  by (auto simp: loanTakenWritten_def loanTakenOptions_def getField_def initialFormData_def
      handleNewAssessment_def loanHandleChange_def handleChange_def mergeExtracted_def)

text \<open>
  C1. For every step with a rule entry and every form record (a record that holds in
  \<open>previous_loan_taken\<close> the empty string or an option of its select, whatever its other
  fields hold), \<open>validateStep\<close> returns, and \<open>isValid\<close> is true if and only if every
  field required now (the step's required set and the additional fields of every rule
  whose trigger field equals its trigger value) is non-empty, where empty means \<open>null\<close>,
  \<open>undefined\<close>, a blank string or \<open>NaN\<close>. The errors reported are exactly the empty
  fields among those, and a field holding the number 0 is never reported.
\<close>

theorem validateStep_valid_iff_required_nonempty:
  assumes "step \<in> {0, 1, 2, 3}"
    and "loanTakenWritten fd"
  shows "\<exists>r. validateStep step fd = Inr r
           \<and> (isValid r \<longleftrightarrow>
                (\<forall>f \<in> set (requiredNow step fd). \<not> emptyValue (getField fd f)))
           \<and> set (objectKeys (errors r)) =
                {f \<in> set (requiredNow step fd). emptyValue (getField fd f)}
           \<and> (\<forall>f e. getField fd f = JNum (Dec 0 e) \<longrightarrow> f \<notin> set (objectKeys (errors r)))"
proof -
  let ?r = "validationOf (checkFields fd (requiredNow step fd) [])"
  have "step = 2 \<longrightarrow> toString (getField fd ''previous_loan_taken'') \<notin> set objectPrototypeKeys"
    using assms(2) by (simp add: loanTakenWritten_not_inherited)
  with assms(1) have r: "validateStep step fd = Inr ?r"
    by (rule validateStep_required)
  have keys: "set (objectKeys (errors ?r)) =
                {f \<in> set (requiredNow step fd). emptyValue (getField fd f)}"
    by (rule validationOf_keys(2))
  have "\<forall>f e. getField fd f = JNum (Dec 0 e) \<longrightarrow> f \<notin> set (objectKeys (errors ?r))"
    unfolding keys by auto
  with r keys validationOf_keys(1) [of fd "requiredNow step fd"]
  show ?thesis by blast
qed

theorem validateStep_valid_iff_required_nonempty_witness:
  "(2::int) \<in> {0, 1, 2, 3}
   \<and> loanTakenWritten loanYesRecord
   \<and> validateStep 2 loanYesRecord =
         Inr \<lparr>isValid = False,
              errors = [(''repayment_status'', ''Repayment Status is required''),
                        (''missed_payment_count'', ''Missed Payment Count is required'')]\<rparr>
   \<and> \<not> emptyValue (getField loanYesRecord ''previous_loan_amount'')
   \<and> emptyValue (getField loanYesRecord ''repayment_status'')"
proof -
  have h1: "(2::int) \<in> {0, 1, 2, 3}" by simp
  have h2: "loanTakenWritten loanYesRecord"
    by (simp add: loanTakenWritten_cases loanYesRecord_fields)
  have v: "validateStep 2 loanYesRecord =
         Inr \<lparr>isValid = False,
              errors = [(''repayment_status'', ''Repayment Status is required''),
                        (''missed_payment_count'', ''Missed Payment Count is required'')]\<rparr>"
    by (simp add: validateStep_loan loanYesRecord_fields validationOf_def checkFields_def
        checkField_def isEmpty_emptyValue objectKeys_def fieldLabel_def fieldLabels_def
        isWhiteSpace_def)
  have e: "\<not> emptyValue (getField loanYesRecord ''previous_loan_amount'')"
    "emptyValue (getField loanYesRecord ''repayment_status'')"
    by (simp_all add: loanYesRecord_fields)
  from validateStep_valid_iff_required_nonempty [OF h1 h2]
  obtain r where r: "validateStep 2 loanYesRecord = Inr r"
    by blast
  with h1 h2 v e show ?thesis by simp
qed

text \<open>
  The trigger is looked up with no own-property test. A value that names a property
  inherited from \<open>Object.prototype\<close>, which the form never writes, makes the call throw.
\<close>

lemma validateStep_inherited_trigger_throws:
  "validateStep 2 loanInheritedRecord =
     Inl (TypeError ''conditions[triggerValue].forEach is not a function'')
   \<and> \<not> loanTakenWritten loanInheritedRecord"
  by (simp add: validateStep_loan loanInheritedRecord_fields objectPrototypeKeys_def
      loanTakenWritten_cases)

text \<open>
  C2. For every form record in which \<open>previous_loan_taken\<close> is not the string \<open>Yes\<close>,
  no result of \<open>validateStep\<close> on step 2 has an error for \<open>previous_loan_amount\<close>,
  \<open>repayment_status\<close> or \<open>missed_payment_count\<close>, whatever those fields hold: the outcome
  is the same for any other values of the three. A result is returned unless the value is
  a name inherited from \<open>Object.prototype\<close>, where the call throws and reports nothing.
\<close>

theorem loan_fields_not_required_unless_yes:
  assumes "getField fd ''previous_loan_taken'' \<noteq> JStr ''Yes''"
  shows "(\<forall>r. validateStep 2 fd = Inr r \<longrightarrow>
            ''previous_loan_amount'' \<notin> set (objectKeys (errors r))
            \<and> ''repayment_status'' \<notin> set (objectKeys (errors r))
            \<and> ''missed_payment_count'' \<notin> set (objectKeys (errors r)))
       \<and> (toString (getField fd ''previous_loan_taken'') \<notin> set objectPrototypeKeys \<longrightarrow>
            (\<exists>r. validateStep 2 fd = Inr r))
       \<and> (\<forall>a b c. validateStep 2 (fd(''previous_loan_amount'' \<mapsto> a,
                       ''repayment_status'' \<mapsto> b, ''missed_payment_count'' \<mapsto> c)) =
                   validateStep 2 fd)"
proof -
  have keys: "set (objectKeys (errors (validationOf (checkFields fd [''previous_loan_taken''] []))))
                \<subseteq> {''previous_loan_taken''}"
    unfolding validationOf_keys(2) by auto
  have part1: "\<forall>r. validateStep 2 fd = Inr r \<longrightarrow>
            ''previous_loan_amount'' \<notin> set (objectKeys (errors r))
            \<and> ''repayment_status'' \<notin> set (objectKeys (errors r))
            \<and> ''missed_payment_count'' \<notin> set (objectKeys (errors r))"
    using assms keys by (auto simp: validateStep_loan split: if_splits)
  have part2: "toString (getField fd ''previous_loan_taken'') \<notin> set objectPrototypeKeys \<longrightarrow>
            (\<exists>r. validateStep 2 fd = Inr r)"
    using assms by (simp add: validateStep_loan)
  have part3: "validateStep 2 (fd(''previous_loan_amount'' \<mapsto> a,
                       ''repayment_status'' \<mapsto> b, ''missed_payment_count'' \<mapsto> c)) =
                   validateStep 2 fd" for a b c
  proof -
    let ?fd = "fd(''previous_loan_amount'' \<mapsto> a, ''repayment_status'' \<mapsto> b,
                 ''missed_payment_count'' \<mapsto> c)"
    have same: "getField ?fd ''previous_loan_taken'' = getField fd ''previous_loan_taken''"
      by (simp add: getField_def)
    then have "checkFields ?fd [''previous_loan_taken''] [] =
               checkFields fd [''previous_loan_taken''] []"
      by (simp add: checkFields_def checkField_def)
    with same assms show ?thesis
      by (simp add: validateStep_loan)
  qed
  from part1 part2 part3 show ?thesis by blast
qed

theorem loan_fields_not_required_unless_yes_witness:
  "getField loanNoRecord ''previous_loan_taken'' \<noteq> JStr ''Yes''
   \<and> emptyValue (getField loanNoRecord ''previous_loan_amount'')
   \<and> emptyValue (getField loanNoRecord ''repayment_status'')
   \<and> emptyValue (getField loanNoRecord ''missed_payment_count'')
   \<and> validateStep 2 loanNoRecord = Inr \<lparr>isValid = True, errors = []\<rparr>"
proof -
  have h: "getField loanNoRecord ''previous_loan_taken'' \<noteq> JStr ''Yes''"
    by (simp add: loanNoRecord_fields)
  have e: "emptyValue (getField loanNoRecord ''previous_loan_amount'')"
    "emptyValue (getField loanNoRecord ''repayment_status'')"
    "emptyValue (getField loanNoRecord ''missed_payment_count'')"
    by (simp_all add: loanNoRecord_fields isWhiteSpace_def)
  have v: "validateStep 2 loanNoRecord = Inr \<lparr>isValid = True, errors = []\<rparr>"
    by (simp add: validateStep_loan loanNoRecord_fields objectPrototypeKeys_def validationOf_def
        checkFields_def checkField_def isEmpty_emptyValue isWhiteSpace_def objectKeys_def)
  from loan_fields_not_required_unless_yes [OF h]
  have "\<forall>r. validateStep 2 loanNoRecord = Inr r \<longrightarrow>
            ''previous_loan_amount'' \<notin> set (objectKeys (errors r))"
    by blast
  with h e v show ?thesis by simp
qed

section \<open>Normalization\<close>








subsection \<open>Decimal numerals\<close>















lemma sampleRecord_fields:
  "getField sampleRecord ''age'' = JStr ''abc''"
  "getField sampleRecord ''total_monthly_inflow'' = JNum (Dec 50005 (- 1))"
  "getField sampleRecord ''transaction_frequency'' = JStr ''12 per month''"
  "getField sampleRecord ''gambling_transactions_count'' = JStr ''''"
  "getField sampleRecord ''salary_payment_detected'' = JStr ''''"
  "getField sampleRecord ''airtime_spend_per_month'' = JStr ''500''"
  "getField sampleRecord ''data_subscription_spend'' = JStr ''0''"
  by (simp_all add: sampleRecord_def getField_def initialFormData_def)


subsection \<open>Numbers of the sample records\<close>














section \<open>The submission\<close>

lemma submitStart_valid:
  "validateStep (currentStep st) (formData st) = Inr v \<Longrightarrow> isValid v \<Longrightarrow>
   submitStart st =
     Inr (st\<lparr>isSubmitting := True, submitError := None, stepErrors := []\<rparr>,
          Some (predictionData (formData st)))"
  by (simp add: submitStart_def)

lemma submitStart_call:
  "submitStart st = Inr (st1, Some data) \<Longrightarrow>
     data = predictionData (formData st)
     \<and> st1 = st\<lparr>isSubmitting := True, submitError := None, stepErrors := []\<rparr>"
  by (auto simp: submitStart_def split: sum.splits if_splits)

lemma readyState_valid:
  "validateStep (currentStep readyState) (formData readyState) = Inr \<lparr>isValid = True, errors = []\<rparr>"
  by (simp add: readyState_def initialState_def validateStep_def validationRules_def
      checkFields_def checkField_def isEmpty_def trim_def trimStart_def isWhiteSpace_def
      objectKeys_def sampleRecord_fields)

text \<open>
  C4. Whenever the step is valid, the scoring call answers and the feedback call throws,
  \<open>handleSubmit\<close> ends normally after exactly those two calls: the results are the four
  scoring fields as the scoring service returned them, the feedback is \<open>null\<close>, the result
  card is shown, no submit error is set and the submitting flag is cleared.
\<close>

theorem feedback_failure_absorbed:
  assumes "validateStep (currentStep st) (formData st) = Inr v" and "isValid v"
    and "predictCredit (predictionData (formData st)) = Inr response"
    and "getFeedback (feedbackData (formData st) response) = Inl feedbackError"
  shows "\<exists>st'. handleSubmit predictCredit getFeedback st =
                 Inr (st', [PredictCredit (predictionData (formData st)),
                            GetFeedback (feedbackData (formData st) response)])
           \<and> results st' = Some (predictionResults response)
           \<and> getField (predictionResults response) ''credit_score_generated'' =
               getField response ''credit_score''
           \<and> getField (predictionResults response) ''risk_category'' =
               getField response ''risk_category''
           \<and> getField (predictionResults response) ''default_probability'' =
               getField response ''default_probability''
           \<and> getField (predictionResults response) ''loan_defaulted'' =
               getField response ''loan_defaulted''
           \<and> feedback st' = JNull
           \<and> showResults st' \<and> \<not> isSubmitting st' \<and> submitError st' = None
           \<and> resultsReady st' \<and> \<not> submitFailed st'"
proof -
  let ?st' = "st\<lparr>isSubmitting := False, submitError := None, stepErrors := [],
                 results := Some (predictionResults response), feedback := JNull,
                 showResults := True\<rparr>"
  have run: "handleSubmit predictCredit getFeedback st =
               Inr (?st', [PredictCredit (predictionData (formData st)),
                           GetFeedback (feedbackData (formData st) response)])"
    using assms by (simp add: handleSubmit_def submitStart_valid)
  have fields:
    "getField (predictionResults response) ''credit_score_generated'' = getField response ''credit_score''"
    "getField (predictionResults response) ''risk_category'' = getField response ''risk_category''"
    "getField (predictionResults response) ''default_probability'' =
       getField response ''default_probability''"
    "getField (predictionResults response) ''loan_defaulted'' = getField response ''loan_defaulted''"
    by (simp_all add: predictionResults_def getField_def)
  have state: "results ?st' = Some (predictionResults response)" "feedback ?st' = JNull"
    "showResults ?st'" "\<not> isSubmitting ?st'" "submitError ?st' = None"
    "resultsReady ?st'" "\<not> submitFailed ?st'"
    by (simp_all add: resultsReady_def submitFailed_def resultsView_def)
  from run fields state show ?thesis by blast
qed

theorem feedback_failure_absorbed_witness:
  "predictionResults scoreResponse ''credit_score_generated'' = Some (JNum (Dec 72 0))
   \<and> (\<exists>st'. handleSubmit scoringService failingService readyState =
                 Inr (st', [PredictCredit (predictionData sampleRecord),
                            GetFeedback (feedbackData sampleRecord scoreResponse)])
           \<and> results st' = Some (predictionResults scoreResponse)
           \<and> feedback st' = JNull \<and> resultsReady st')"
proof -
  have fd: "formData readyState = sampleRecord"
    by (simp add: readyState_def)
  have p: "scoringService (predictionData (formData readyState)) = Inr scoreResponse"
    by (simp add: scoringService_def)
  have f: "failingService (feedbackData (formData readyState) scoreResponse) =
             Inl (Error ''Service unavailable'')"
    by (simp add: failingService_def)
  have c: "predictionResults scoreResponse ''credit_score_generated'' = Some (JNum (Dec 72 0))"
    by (simp add: predictionResults_def scoreResponse_def getField_def)
  have v: "isValid \<lparr>isValid = True, errors = []\<rparr>"
    by simp
  from feedback_failure_absorbed [where st = readyState and predictCredit = scoringService
      and getFeedback = failingService and response = scoreResponse,
      OF readyState_valid v p f] c
  show ?thesis unfolding fd by auto
qed

text \<open>
  C5. \<open>handleSubmit\<close> calls the feedback service only as its second call, after a scoring
  call that answered, and with the payload built from that answer. When the step is valid
  and the scoring call throws, the scoring call is the only call made, the error's message
  (the fixed text when it has none) becomes the submit error, the submitting flag is
  cleared and the result card is not shown.
\<close>

theorem prediction_failure_short_circuits:
  "(\<forall>st' cs. handleSubmit predictCredit getFeedback st = Inr (st', cs) \<longrightarrow>
       cs = []
     \<or> (\<exists>error. predictCredit (predictionData (formData st)) = Inl error
                \<and> cs = [PredictCredit (predictionData (formData st))])
     \<or> (\<exists>response. predictCredit (predictionData (formData st)) = Inr response
                   \<and> cs = [PredictCredit (predictionData (formData st)),
                           GetFeedback (feedbackData (formData st) response)]))
   \<and> (\<forall>v error. validateStep (currentStep st) (formData st) = Inr v \<and> isValid v
                 \<and> predictCredit (predictionData (formData st)) = Inl error \<longrightarrow>
        (\<exists>st'. handleSubmit predictCredit getFeedback st =
                  Inr (st', [PredictCredit (predictionData (formData st))])
              \<and> submitError st' =
                  Some (messageOr error ''Failed to get prediction. Please try again.'')
              \<and> (message error \<noteq> [] \<longrightarrow> submitError st' = Some (message error))
              \<and> \<not> isSubmitting st'
              \<and> showResults st' = showResults st \<and> results st' = results st
              \<and> feedback st' = feedback st \<and> formData st' = formData st
              \<and> (\<not> resultsView st \<longrightarrow> submitFailed st')))"
proof -
  have order: "cs = []
     \<or> (\<exists>error. predictCredit (predictionData (formData st)) = Inl error
                \<and> cs = [PredictCredit (predictionData (formData st))])
     \<or> (\<exists>response. predictCredit (predictionData (formData st)) = Inr response
                   \<and> cs = [PredictCredit (predictionData (formData st)),
                           GetFeedback (feedbackData (formData st) response)])"
    if h: "handleSubmit predictCredit getFeedback st = Inr (st', cs)" for st' cs
  proof (cases "submitStart st")
    case (Inl e)
    with h show ?thesis by (simp add: handleSubmit_def)
  next
    case (Inr p)
    obtain st1 c where p: "p = (st1, c)" by (cases p)
    from Inr p have start: "submitStart st = Inr (st1, c)" by simp
    show ?thesis
    proof (cases c)
      case None
      with h start show ?thesis by (simp add: handleSubmit_def)
    next
      case (Some data)
      with submitStart_call [of st st1 data] start
      have data: "data = predictionData (formData st)"
        by simp
      show ?thesis
      proof (cases "predictCredit data")
        case (Inl error)
        with h start Some data show ?thesis by (auto simp: handleSubmit_def)
      next
        case (Inr response)
        with h start Some data show ?thesis by (auto simp: handleSubmit_def)
      qed
    qed
  qed
  have failure: "\<exists>st'. handleSubmit predictCredit getFeedback st =
                  Inr (st', [PredictCredit (predictionData (formData st))])
              \<and> submitError st' =
                  Some (messageOr error ''Failed to get prediction. Please try again.'')
              \<and> (message error \<noteq> [] \<longrightarrow> submitError st' = Some (message error))
              \<and> \<not> isSubmitting st'
              \<and> showResults st' = showResults st \<and> results st' = results st
              \<and> feedback st' = feedback st \<and> formData st' = formData st
              \<and> (\<not> resultsView st \<longrightarrow> submitFailed st')"
    if h: "validateStep (currentStep st) (formData st) = Inr v \<and> isValid v
                 \<and> predictCredit (predictionData (formData st)) = Inl error" for v error
  proof -
    let ?st' = "st\<lparr>isSubmitting := False,
                   submitError := Some (messageOr error ''Failed to get prediction. Please try again.''),
                   stepErrors := []\<rparr>"
    have "handleSubmit predictCredit getFeedback st =
            Inr (?st', [PredictCredit (predictionData (formData st))])"
      using h submitStart_valid [of st v] by (simp add: handleSubmit_def)
    moreover have "submitError ?st' =
        Some (messageOr error ''Failed to get prediction. Please try again.'')"
      "message error \<noteq> [] \<longrightarrow> submitError ?st' = Some (message error)"
      "\<not> isSubmitting ?st'" "showResults ?st' = showResults st" "results ?st' = results st"
      "feedback ?st' = feedback st" "formData ?st' = formData st"
      "\<not> resultsView st \<longrightarrow> submitFailed ?st'"
      by (simp_all add: messageOr_def submitFailed_def resultsView_def)
    ultimately show ?thesis by blast
  qed
  from order failure show ?thesis by blast
qed

theorem prediction_failure_short_circuits_witness:
  "\<exists>st'. handleSubmit failingService scoringService readyState =
            Inr (st', [PredictCredit (predictionData sampleRecord)])
        \<and> submitError st' = Some ''Service unavailable''
        \<and> submitFailed st'"
proof -
  have fd: "formData readyState = sampleRecord"
    by (simp add: readyState_def)
  have h: "validateStep (currentStep readyState) (formData readyState) =
             Inr \<lparr>isValid = True, errors = []\<rparr>
           \<and> isValid \<lparr>isValid = True, errors = []\<rparr>
           \<and> failingService (predictionData (formData readyState)) =
               Inl (Error ''Service unavailable'')"
    by (simp add: readyState_valid failingService_def)
  have view: "\<not> resultsView readyState"
    by (simp add: resultsView_def readyState_def initialState_def)
  from prediction_failure_short_circuits [of failingService scoringService readyState] h
  obtain st' where "handleSubmit failingService scoringService readyState =
                  Inr (st', [PredictCredit (predictionData (formData readyState))])"
    and "message (Error ''Service unavailable'') \<noteq> [] \<longrightarrow>
           submitError st' = Some (message (Error ''Service unavailable''))"
    and "\<not> resultsView readyState \<longrightarrow> submitFailed st'"
    by blast
  with view show ?thesis unfolding fd by auto
qed

section \<open>The step components\<close>

text \<open>
  C7. When the extraction fails, the second part of \<open>handleFileChange\<close> hands back the
  record it found, whatever it holds. Over the whole handler the record differs from the
  one before the attempt in \<open>bank_statement\<close> alone, which the first part set to the
  chosen file before calling the extraction: each of the nine financial fields holds the
  value it held before. The handler ends normally, with the error's message (the fixed
  text when it has none) stored as \<open>extractionError\<close>.
\<close>

theorem failed_extraction_leaves_record:
  assumes "extractFinancialData file = Inl error"
  shows "fst (fileChangeDone file (Inl error) (prev, local)) = prev
       \<and> handleFileChange extractFinancialData (Some file) (fd, local) =
           ((fd(''bank_statement'' \<mapsto> JFile file),
             local\<lparr>fileName := file, isExtracting := False,
                   extractionError :=
                     Some (messageOr error ''Failed to extract data. Please fill manually.''),
                   extractionSuccess := False\<rparr>),
            [ExtractFinancialData file])
       \<and> (\<forall>f \<in> set [''total_monthly_inflow'', ''total_monthly_outflow'',
                      ''transaction_frequency'', ''salary_payment_detected'',
                      ''end_of_month_balance'', ''highest_credit_amount'',
                      ''highest_debit_amount'', ''gambling_transactions_count'',
                      ''loan_related_transactions_count''].
             getField (fst (fst (handleFileChange extractFinancialData (Some file) (fd, local)))) f =
             getField fd f)
       \<and> (\<forall>f. f \<noteq> ''bank_statement'' \<longrightarrow>
             fst (fst (handleFileChange extractFinancialData (Some file) (fd, local))) f = fd f)
       \<and> (message error \<noteq> [] \<longrightarrow>
             extractionError (snd (fst (handleFileChange extractFinancialData (Some file) (fd, local)))) =
             Some (message error))"
proof -
  have whole: "handleFileChange extractFinancialData (Some file) (fd, local) =
           ((fd(''bank_statement'' \<mapsto> JFile file),
             local\<lparr>fileName := file, isExtracting := False,
                   extractionError :=
                     Some (messageOr error ''Failed to extract data. Please fill manually.''),
                   extractionSuccess := False\<rparr>),
            [ExtractFinancialData file])"
    using assms by simp
  have merge: "fst (fileChangeDone file (Inl error) (prev, local)) = prev"
    by simp
  have nine: "\<forall>f \<in> set [''total_monthly_inflow'', ''total_monthly_outflow'',
                      ''transaction_frequency'', ''salary_payment_detected'',
                      ''end_of_month_balance'', ''highest_credit_amount'',
                      ''highest_debit_amount'', ''gambling_transactions_count'',
                      ''loan_related_transactions_count''].
             getField (fst (fst (handleFileChange extractFinancialData (Some file) (fd, local)))) f =
             getField fd f"
    unfolding whole by (simp add: getField_def)
  have others: "\<forall>f. f \<noteq> ''bank_statement'' \<longrightarrow>
             fst (fst (handleFileChange extractFinancialData (Some file) (fd, local))) f = fd f"
    unfolding whole by simp
  have msg: "message error \<noteq> [] \<longrightarrow>
             extractionError (snd (fst (handleFileChange extractFinancialData (Some file) (fd, local)))) =
             Some (message error)"
    unfolding whole by (simp add: messageOr_def)
  show ?thesis
    by (intro conjI merge whole nine others msg)
qed

theorem failed_extraction_leaves_record_witness:
  "failingExtraction ''statement.pdf'' = Inl (Error ''Extraction failed'')
   \<and> handleFileChange failingExtraction (Some ''statement.pdf'') (sampleRecord, idleUpload) =
       ((sampleRecord(''bank_statement'' \<mapsto> JFile ''statement.pdf''),
         \<lparr>fileName = ''statement.pdf'', isExtracting = False,
          extractionError = Some ''Extraction failed'', extractionSuccess = False\<rparr>),
        [ExtractFinancialData ''statement.pdf''])"
proof -
  have h: "failingExtraction ''statement.pdf'' = Inl (Error ''Extraction failed'')"
    by (simp add: failingExtraction_def)
  from failed_extraction_leaves_record [where extractFinancialData = failingExtraction
      and local = idleUpload and fd = sampleRecord, OF h]
  have "handleFileChange failingExtraction (Some ''statement.pdf'') (sampleRecord, idleUpload) =
           ((sampleRecord(''bank_statement'' \<mapsto> JFile ''statement.pdf''),
             idleUpload\<lparr>fileName := ''statement.pdf'', isExtracting := False,
                   extractionError :=
                     Some (messageOr (Error ''Extraction failed'')
                             ''Failed to extract data. Please fill manually.''),
                   extractionSuccess := False\<rparr>),
            [ExtractFinancialData ''statement.pdf''])"
    by blast
  with h show ?thesis by (simp add: idleUpload_def messageOr_def)
qed

text \<open>
  C10. When the loan-history handler is given \<open>previous_loan_taken\<close> and \<open>No\<close>, the record
  it hands to \<open>setFormData\<close> has that value and, with it, \<open>previous_loan_amount\<close> empty,
  \<open>repayment_status\<close> \<open>N/A\<close> and \<open>missed_payment_count\<close> the string \<open>0\<close>, every other
  field being as before. The initial record holds the empty string in all three, so the
  three reset values are not the three initial ones. Any other change updates the named
  field alone.
\<close>

theorem loan_change_resets_dependents:
  "loanHandleChange fd ''previous_loan_taken'' (JStr ''No'') =
     fd(''previous_loan_taken'' \<mapsto> JStr ''No'', ''previous_loan_amount'' \<mapsto> JStr '''',
        ''repayment_status'' \<mapsto> JStr ''N/A'', ''missed_payment_count'' \<mapsto> JStr ''0'')
   \<and> (\<forall>f. f \<notin> {''previous_loan_taken'', ''previous_loan_amount'', ''repayment_status'',
               ''missed_payment_count''} \<longrightarrow>
          loanHandleChange fd ''previous_loan_taken'' (JStr ''No'') f = fd f)
   \<and> (getField initialFormData ''previous_loan_amount'',
       getField initialFormData ''repayment_status'',
       getField initialFormData ''missed_payment_count'') = (JStr '''', JStr '''', JStr '''')
   \<and> (getField (loanHandleChange fd ''previous_loan_taken'' (JStr ''No'')) ''previous_loan_amount'',
       getField (loanHandleChange fd ''previous_loan_taken'' (JStr ''No'')) ''repayment_status'',
       getField (loanHandleChange fd ''previous_loan_taken'' (JStr ''No'')) ''missed_payment_count'')
      \<noteq> (getField initialFormData ''previous_loan_amount'',
          getField initialFormData ''repayment_status'',
          getField initialFormData ''missed_payment_count'')
   \<and> (\<forall>field value. \<not> (field = ''previous_loan_taken'' \<and> value = JStr ''No'') \<longrightarrow>
          loanHandleChange fd field value = fd(field \<mapsto> value)
          \<and> (\<forall>f. f \<noteq> field \<longrightarrow> loanHandleChange fd field value f = fd f))"
proof -
  have reset: "loanHandleChange fd ''previous_loan_taken'' (JStr ''No'') =
     fd(''previous_loan_taken'' \<mapsto> JStr ''No'', ''previous_loan_amount'' \<mapsto> JStr '''',
        ''repayment_status'' \<mapsto> JStr ''N/A'', ''missed_payment_count'' \<mapsto> JStr ''0'')"
    by (simp add: loanHandleChange_def)
  have frame: "\<forall>f. f \<notin> {''previous_loan_taken'', ''previous_loan_amount'', ''repayment_status'',
               ''missed_payment_count''} \<longrightarrow>
          loanHandleChange fd ''previous_loan_taken'' (JStr ''No'') f = fd f"
    unfolding reset by simp
  have init: "(getField initialFormData ''previous_loan_amount'',
       getField initialFormData ''repayment_status'',
       getField initialFormData ''missed_payment_count'') = (JStr '''', JStr '''', JStr '''')"
    by (simp add: getField_def initialFormData_def)
  have differ: "(getField (loanHandleChange fd ''previous_loan_taken'' (JStr ''No'')) ''previous_loan_amount'',
       getField (loanHandleChange fd ''previous_loan_taken'' (JStr ''No'')) ''repayment_status'',
       getField (loanHandleChange fd ''previous_loan_taken'' (JStr ''No'')) ''missed_payment_count'')
      \<noteq> (getField initialFormData ''previous_loan_amount'',
          getField initialFormData ''repayment_status'',
          getField initialFormData ''missed_payment_count'')"
    unfolding reset init by (simp add: getField_def)
  have other: "\<forall>field value. \<not> (field = ''previous_loan_taken'' \<and> value = JStr ''No'') \<longrightarrow>
          loanHandleChange fd field value = fd(field \<mapsto> value)
          \<and> (\<forall>f. f \<noteq> field \<longrightarrow> loanHandleChange fd field value f = fd f)"
    by (simp add: loanHandleChange_def)
  show ?thesis
    by (intro conjI reset frame init differ other)
qed

theorem loan_change_resets_dependents_witness:
  "getField (loanHandleChange loanYesRecord ''previous_loan_taken'' (JStr ''No''))
     ''repayment_status'' = JStr ''N/A''
   \<and> loanHandleChange loanYesRecord ''previous_loan_taken'' (JStr ''No'') ''age'' =
       loanYesRecord ''age''
   \<and> loanHandleChange loanYesRecord ''previous_loan_taken'' (JStr ''Yes'') =
       loanYesRecord(''previous_loan_taken'' \<mapsto> JStr ''Yes'')"
proof -
  note t = loan_change_resets_dependents [of loanYesRecord]
  note reset = t [THEN conjunct1]
  note frame = t [THEN conjunct2, THEN conjunct1, rule_format]
  note other = t [THEN conjunct2, THEN conjunct2, THEN conjunct2, THEN conjunct2, rule_format]
  have a: "''age'' \<notin> {''previous_loan_taken'', ''previous_loan_amount'', ''repayment_status'',
               ''missed_payment_count''}"
    by simp
  have b: "\<not> (''previous_loan_taken'' = ''previous_loan_taken'' \<and> JStr ''Yes'' = JStr ''No'')"
    by simp
  have "getField (loanHandleChange loanYesRecord ''previous_loan_taken'' (JStr ''No''))
     ''repayment_status'' = JStr ''N/A''"
    unfolding reset by (simp add: getField_def)
  moreover note frame [OF a]
  moreover note other [OF b, THEN conjunct1]
  ultimately show ?thesis by (intro conjI)
qed

section \<open>Sessions\<close>

lemma run_snoc: "run (es @ [e]) s = handleEvent e (run es s)"
  by (simp add: run_def)

lemma inv_initial: "sessionInv initialSession"
  by (simp add: sessionInv_def initialSession_def initialState_def formStepsLength_def)

lemma inv_setFormData: "sessionInv s \<Longrightarrow> sessionInv (setFormData fd s)"
  by (simp add: sessionInv_def setFormData_def)

lemma handleNext_frame:
  assumes "handleNext st = Inr st'"
  shows "showResults st' = showResults st \<and> results st' = results st
       \<and> isSubmitting st' = isSubmitting st \<and> submitError st' = submitError st
       \<and> (currentStep st' = currentStep st
          \<or> (currentStep st < formStepsLength - 1 \<and> currentStep st' = currentStep st + 1))"
  using assms by (auto simp: handleNext_def split: sum.splits if_splits)

lemma inv_next: "sessionInv s \<Longrightarrow> sessionInv (handleEvent ClickNext s)"
proof (cases "handleNext (ui s)")
  case (Inl e)
  assume "sessionInv s"
  with Inl show ?thesis by simp
next
  case (Inr st')
  assume inv: "sessionInv s"
  from handleNext_frame [OF Inr] inv have "sessionInv (s\<lparr>ui := st'\<rparr>)"
    by (auto simp: sessionInv_def)
  with inv Inr show ?thesis by simp
qed

lemma inv_previous: "sessionInv s \<Longrightarrow> sessionInv (handleEvent ClickPrevious s)"
  by (auto simp: sessionInv_def handlePrevious_def)

lemma inv_newAssessment: "sessionInv s \<Longrightarrow> sessionInv (handleEvent ClickNewAssessment s)"
  by (auto simp: sessionInv_def handleNewAssessment_def resultsView_def formStepsLength_def)

lemma submitStart_frame:
  assumes "submitStart st = Inr (st1, c)"
  shows "currentStep st1 = currentStep st \<and> showResults st1 = showResults st
       \<and> results st1 = results st
       \<and> (c = None \<longrightarrow> isSubmitting st1 = isSubmitting st \<and> submitError st1 = submitError st)
       \<and> (c \<noteq> None \<longrightarrow> isSubmitting st1 \<and> submitError st1 = None)"
  using assms by (auto simp: submitStart_def split: sum.splits if_splits)

lemma inv_submit: "sessionInv s \<Longrightarrow> sessionInv (handleEvent ClickSubmit s)"
proof -
  assume inv: "sessionInv s"
  show ?thesis
  proof (cases "resultsView (ui s) \<or> currentStep (ui s) \<noteq> formStepsLength - 1
                \<or> isSubmitting (ui s)")
    case True
    with inv show ?thesis by auto
  next
    case False
    then have idle: "pending s = []" and view: "\<not> showResults (ui s)"
      using inv by (auto simp: sessionInv_def resultsView_def)
    show ?thesis
    proof (cases "submitStart (ui s)")
      case (Inl e)
      with inv False show ?thesis by simp
    next
      case (Inr p)
      obtain st1 c where p: "p = (st1, c)" by (cases p)
      from Inr p have start: "submitStart (ui s) = Inr (st1, c)" by simp
      note fr = submitStart_frame [OF start]
      show ?thesis
      proof (cases c)
        case None
        with fr inv have "sessionInv (s\<lparr>ui := st1\<rparr>)"
          by (simp add: sessionInv_def)
        with False start None show ?thesis by simp
      next
        case (Some data)
        with fr inv idle view
        have "sessionInv (s\<lparr>ui := st1, pending := pending s @ [AwaitPredict (formData (ui s))],
                 calls := calls s @ [PredictCredit data]\<rparr>)"
          by (simp add: sessionInv_def)
        with False start Some show ?thesis by simp
      qed
    qed
  qed
qed

lemma inv_predict: "sessionInv s \<Longrightarrow> sessionInv (handleEvent (PredictResolved outcome) s)"
proof -
  assume inv: "sessionInv s"
  show ?thesis
  proof (cases "pending s")
    case Nil
    with inv show ?thesis by simp
  next
    case (Cons p rest)
    with inv have rest: "rest = []" by (simp add: sessionInv_def)
    show ?thesis
    proof (cases p)
      case AwaitFeedback
      with inv Cons show ?thesis by simp
    next
      case (AwaitPredict captured)
      show ?thesis
      proof (cases outcome)
        case (Inl error)
        with inv Cons rest AwaitPredict show ?thesis
          by (simp add: sessionInv_def)
      next
        case (Inr response)
        with inv Cons rest AwaitPredict show ?thesis
          by (simp add: sessionInv_def)
      qed
    qed
  qed
qed

lemma inv_feedback: "sessionInv s \<Longrightarrow> sessionInv (handleEvent (FeedbackResolved outcome) s)"
proof -
  assume inv: "sessionInv s"
  show ?thesis
  proof (cases "pending s")
    case Nil
    with inv show ?thesis by simp
  next
    case (Cons p rest)
    with inv have rest: "rest = []" by (simp add: sessionInv_def)
    show ?thesis
    proof (cases p)
      case (AwaitPredict captured)
      with inv Cons show ?thesis by simp
    next
      case AwaitFeedback
      with inv Cons rest show ?thesis
        by (cases outcome) (simp_all add: sessionInv_def)
    qed
  qed
qed

lemma inv_fileChosen: "sessionInv s \<Longrightarrow> sessionInv (handleEvent (FileChosen file) s)"
  by (simp add: sessionInv_def setFormData_def)

lemma inv_extract: "sessionInv s \<Longrightarrow> sessionInv (handleEvent (ExtractResolved file outcome) s)"
  by (cases outcome) (simp_all add: inv_setFormData)

lemma inv_step:
  assumes "sessionInv s"
  shows "sessionInv (handleEvent e s)"
proof (cases e)
  case (Change f v)
  with assms show ?thesis by (simp add: inv_setFormData)
next
  case (LoanChange f v)
  with assms show ?thesis by (simp add: inv_setFormData)
next
  case (FileChosen x)
  show ?thesis unfolding FileChosen using assms by (rule inv_fileChosen)
next
  case (ExtractResolved x outcome)
  show ?thesis unfolding ExtractResolved using assms by (rule inv_extract)
next
  case ClickNext
  show ?thesis unfolding ClickNext using assms by (rule inv_next)
next
  case ClickPrevious
  show ?thesis unfolding ClickPrevious using assms by (rule inv_previous)
next
  case ClickSubmit
  show ?thesis unfolding ClickSubmit using assms by (rule inv_submit)
next
  case (PredictResolved outcome)
  show ?thesis unfolding PredictResolved using assms by (rule inv_predict)
next
  case (FeedbackResolved outcome)
  show ?thesis unfolding FeedbackResolved using assms by (rule inv_feedback)
next
  case ClickNewAssessment
  show ?thesis unfolding ClickNewAssessment using assms by (rule inv_newAssessment)
qed

lemma inv_run: "sessionInv (run es initialSession)"
proof (induction es rule: rev_induct)
  case Nil
  show ?case by (simp add: run_def inv_initial)
next
  case (snoc e es)
  then show ?case by (simp add: run_snoc inv_step)
qed

lemmas eval_defs = run_def initialSession_def setFormData_def handleChange_def loanHandleChange_def
  resultsView_def handleNext_def handlePrevious_def submitStart_def validateStep_def
  validationRules_def checkFields_def checkField_def isEmpty_def trim_def trimStart_def
  isWhiteSpace_def getField_def objectKeys_def formStepsLength_def getProp_def
  objectPrototypeKeys_def mergeExtracted_def sampleExtracted_def handleNewAssessment_def

lemma fillAndSubmit_state:
  "currentStep (ui (run fillAndSubmit initialSession)) = 3"
  "isSubmitting (ui (run fillAndSubmit initialSession))"
  "length (pending (run fillAndSubmit initialSession)) = 1"
  "length (calls (run fillAndSubmit initialSession)) = 2"
  by (simp_all add: fillAndSubmit_def eval_defs initialState_def)

lemma scoredWithoutFeedback_state:
  "showResults (ui (run scoredWithoutFeedback initialSession))"
  "results (ui (run scoredWithoutFeedback initialSession)) = Some (predictionResults scoreResponse)"
  "feedback (ui (run scoredWithoutFeedback initialSession)) = JNull"
  "length (calls (run scoredWithoutFeedback initialSession)) = 3"
  by (simp_all add: scoredWithoutFeedback_def fillAndSubmit_def eval_defs initialState_def)

text \<open>
  C6. In every state a session can reach, a submission waits for a service exactly while
  \<open>isSubmitting\<close> is set, and at most one does. While one waits, a click on Submit, and
  any number of them, leaves the session as it is: the same state, the same one waiting
  submission, the same log of calls.
\<close>

theorem submit_ignored_while_in_flight:
  "(isSubmitting (ui (run es initialSession)) \<longleftrightarrow> pending (run es initialSession) \<noteq> [])
   \<and> length (pending (run es initialSession)) \<le> 1
   \<and> (pending (run es initialSession) \<noteq> [] \<longrightarrow>
        handleEvent ClickSubmit (run es initialSession) = run es initialSession
        \<and> (\<forall>n. run (replicate n ClickSubmit) (run es initialSession) = run es initialSession))"
proof -
  let ?s = "run es initialSession"
  have inv: "sessionInv ?s" by (rule inv_run)
  then have flag: "isSubmitting (ui ?s) \<longleftrightarrow> pending ?s \<noteq> []"
    and one: "length (pending ?s) \<le> 1"
    by (simp_all add: sessionInv_def)
  have noop: "handleEvent ClickSubmit ?s = ?s" if "pending ?s \<noteq> []"
    using that flag by simp
  have many: "run (replicate n ClickSubmit) ?s = ?s" if "pending ?s \<noteq> []" for n
  proof (induction n)
    case 0
    show ?case by (simp add: run_def)
  next
    case (Suc n)
    have "run (replicate (Suc n) ClickSubmit) ?s =
            run (replicate n ClickSubmit) (handleEvent ClickSubmit ?s)"
      by (simp add: run_def)
    with Suc noop [OF that] show ?case by simp
  qed
  from flag one noop many show ?thesis by simp
qed

theorem submit_ignored_while_in_flight_witness:
  "pending (run fillAndSubmit initialSession) \<noteq> []
   \<and> isSubmitting (ui (run fillAndSubmit initialSession))
   \<and> handleEvent ClickSubmit (run fillAndSubmit initialSession) = run fillAndSubmit initialSession
   \<and> calls (run (fillAndSubmit @ [ClickSubmit, ClickSubmit]) initialSession) =
       calls (run fillAndSubmit initialSession)"
proof -
  have h: "pending (run fillAndSubmit initialSession) \<noteq> []"
    using fillAndSubmit_state(3) by auto
  note t = submit_ignored_while_in_flight [of fillAndSubmit]
  from t h have noop: "handleEvent ClickSubmit (run fillAndSubmit initialSession) =
                         run fillAndSubmit initialSession"
    by simp
  have "run (fillAndSubmit @ [ClickSubmit, ClickSubmit]) initialSession =
          handleEvent ClickSubmit (handleEvent ClickSubmit (run fillAndSubmit initialSession))"
    by (simp add: run_def)
  with noop have "run (fillAndSubmit @ [ClickSubmit, ClickSubmit]) initialSession =
                    run fillAndSubmit initialSession"
    by simp
  with h noop fillAndSubmit_state(2) show ?thesis by simp
qed

text \<open>
  C8. \<open>handleNewAssessment\<close> always sets the record to \<open>initialFormData\<close> (the file handle
  \<open>null\<close> with it), clears the results, the feedback and the step errors, and sets the
  step index to 0 with the form shown. Wherever a session shows the result card, the
  state after New Assessment is exactly the initial state, the submit error and the
  submitting flag included, and no submission is waiting.
\<close>

theorem newAssessment_round_trip:
  "formData (handleNewAssessment st) = initialFormData
   \<and> getField (formData (handleNewAssessment st)) ''bank_statement'' = JNull
   \<and> results (handleNewAssessment st) = None
   \<and> feedback (handleNewAssessment st) = JNull
   \<and> stepErrors (handleNewAssessment st) = []
   \<and> currentStep (handleNewAssessment st) = 0
   \<and> \<not> resultsView (handleNewAssessment st)
   \<and> (resultsView (ui (run es initialSession)) \<longrightarrow>
        ui (handleEvent ClickNewAssessment (run es initialSession)) = initialState
        \<and> pending (handleEvent ClickNewAssessment (run es initialSession)) = [])"
proof -
  let ?s = "run es initialSession"
  have always: "formData (handleNewAssessment st) = initialFormData"
    "getField (formData (handleNewAssessment st)) ''bank_statement'' = JNull"
    "results (handleNewAssessment st) = None"
    "feedback (handleNewAssessment st) = JNull"
    "stepErrors (handleNewAssessment st) = []"
    "currentStep (handleNewAssessment st) = 0"
    "\<not> resultsView (handleNewAssessment st)"
    by (simp_all add: handleNewAssessment_def resultsView_def getField_def initialFormData_def)
  have restored: "ui (handleEvent ClickNewAssessment ?s) = initialState
              \<and> pending (handleEvent ClickNewAssessment ?s) = []"
    if view: "resultsView (ui ?s)"
  proof -
    have inv: "sessionInv ?s" by (rule inv_run)
    from view have shown: "showResults (ui ?s)" by (simp add: resultsView_def)
    with inv have idle: "pending ?s = []" and flag: "\<not> isSubmitting (ui ?s)"
      and err: "submitError (ui ?s) = None"
      by (auto simp: sessionInv_def)
    have "handleNewAssessment (ui ?s) = initialState"
      using flag err by (cases "ui ?s") (simp add: handleNewAssessment_def initialState_def)
    with view idle show ?thesis by simp
  qed
  from always restored show ?thesis by simp
qed

theorem newAssessment_round_trip_witness:
  "resultsView (ui (run scoredWithoutFeedback initialSession))
   \<and> formData (ui (run scoredWithoutFeedback initialSession)) \<noteq> initialFormData
   \<and> ui (run (scoredWithoutFeedback @ [ClickNewAssessment]) initialSession) = initialState"
proof -
  have view: "resultsView (ui (run scoredWithoutFeedback initialSession))"
    by (simp add: resultsView_def scoredWithoutFeedback_state)
  have "formData (ui (run scoredWithoutFeedback initialSession)) ''age'' = Some (JStr ''30'')"
    by (simp add: scoredWithoutFeedback_def fillAndSubmit_def eval_defs initialState_def)
  moreover have "initialFormData ''age'' = Some (JStr '''')"
    by (simp add: initialFormData_def)
  ultimately have changed: "formData (ui (run scoredWithoutFeedback initialSession)) \<noteq> initialFormData"
    by auto
  from newAssessment_round_trip [of initialState scoredWithoutFeedback] view
  have "ui (handleEvent ClickNewAssessment (run scoredWithoutFeedback initialSession)) = initialState"
    by simp
  with view changed show ?thesis by (simp add: run_snoc)
qed

text \<open>
  C9. In every state a session can reach, the step index lies between 0 and the number
  of steps less one. \<open>handlePrevious\<close> validates nothing and cannot fail: it clears the
  step errors and lowers the index by one when it is above zero, and leaves it otherwise.
  \<open>handleNext\<close> on a valid step clears the step errors and raises the index by one when it
  is below the last step, and leaves it otherwise; on an invalid step it stores the errors
  and leaves the index.
\<close>

theorem step_index_in_range:
  "0 \<le> currentStep (ui (run es initialSession))
   \<and> currentStep (ui (run es initialSession)) \<le> formStepsLength - 1
   \<and> handlePrevious st =
       st\<lparr>stepErrors := [],
          currentStep := (if currentStep st > 0 then currentStep st - 1 else currentStep st)\<rparr>
   \<and> (0 \<le> currentStep st \<longrightarrow> 0 \<le> currentStep (handlePrevious st))
   \<and> (\<forall>v. validateStep (currentStep st) (formData st) = Inr v \<and> isValid v \<longrightarrow>
          handleNext st =
            Inr (st\<lparr>stepErrors := [],
                    currentStep := (if currentStep st < formStepsLength - 1
                                    then currentStep st + 1 else currentStep st)\<rparr>))
   \<and> (\<forall>v. validateStep (currentStep st) (formData st) = Inr v \<and> \<not> isValid v \<longrightarrow>
          handleNext st = Inr (st\<lparr>stepErrors := errors v\<rparr>))"
proof -
  have "sessionInv (run es initialSession)" by (rule inv_run)
  then have range: "0 \<le> currentStep (ui (run es initialSession))"
    "currentStep (ui (run es initialSession)) \<le> formStepsLength - 1"
    by (simp_all add: sessionInv_def)
  have prev: "handlePrevious st =
       st\<lparr>stepErrors := [],
          currentStep := (if currentStep st > 0 then currentStep st - 1 else currentStep st)\<rparr>"
    "0 \<le> currentStep st \<longrightarrow> 0 \<le> currentStep (handlePrevious st)"
    by (simp_all add: handlePrevious_def)
  have nxt: "\<forall>v. validateStep (currentStep st) (formData st) = Inr v \<and> isValid v \<longrightarrow>
          handleNext st =
            Inr (st\<lparr>stepErrors := [],
                    currentStep := (if currentStep st < formStepsLength - 1
                                    then currentStep st + 1 else currentStep st)\<rparr>)"
    "\<forall>v. validateStep (currentStep st) (formData st) = Inr v \<and> \<not> isValid v \<longrightarrow>
          handleNext st = Inr (st\<lparr>stepErrors := errors v\<rparr>)"
    by (simp_all add: handleNext_def)
  show ?thesis
    by (intro conjI range prev nxt)
qed

theorem step_index_in_range_witness:
  "currentStep (ui (run fillAndSubmit initialSession)) = 3
   \<and> currentStep (ui (run fillAndSubmit initialSession)) \<le> formStepsLength - 1
   \<and> currentStep (handlePrevious initialState) = 0
   \<and> handleNext readyState = Inr (readyState\<lparr>stepErrors := []\<rparr>)
   \<and> handleNext initialState =
       Inr (initialState\<lparr>stepErrors := [(''age'', ''Age is required''),
                                         (''gender'', ''Gender is required''),
                                         (''employment_status'', ''Employment Status is required'')]\<rparr>)"
proof -
  note r = step_index_in_range [of fillAndSubmit initialState]
  note n = step_index_in_range [of fillAndSubmit readyState]
  from r have range: "currentStep (ui (run fillAndSubmit initialSession)) \<le> formStepsLength - 1"
    by (rule conjunct2 [THEN conjunct1])
  from r have prev: "0 \<le> currentStep initialState \<longrightarrow> 0 \<le> currentStep (handlePrevious initialState)"
    by simp
  have p0: "currentStep (handlePrevious initialState) = 0"
    using prev by (simp add: handlePrevious_def initialState_def)
  have v3: "validateStep (currentStep readyState) (formData readyState) =
              Inr \<lparr>isValid = True, errors = []\<rparr> \<and> isValid \<lparr>isValid = True, errors = []\<rparr>"
    by (simp add: readyState_valid)
  from n v3 have n3: "handleNext readyState =
      Inr (readyState\<lparr>stepErrors := [],
              currentStep := (if currentStep readyState < formStepsLength - 1
                              then currentStep readyState + 1 else currentStep readyState)\<rparr>)"
    by blast
  have last: "\<not> currentStep readyState < formStepsLength - 1"
    by (simp add: readyState_def formStepsLength_def)
  have n0: "handleNext initialState =
       Inr (initialState\<lparr>stepErrors := [(''age'', ''Age is required''),
                                         (''gender'', ''Gender is required''),
                                         (''employment_status'', ''Employment Status is required'')]\<rparr>)"
    by (simp add: eval_defs initialState_def initialFormData_def fieldLabel_def fieldLabels_def)
  from range p0 n3 last n0 fillAndSubmit_state(1) show ?thesis by simp
qed

section \<open>Form records of a session\<close>

text \<open>
  No handler of CreditForm but \<open>handleNewAssessment\<close> writes the record, so every record
  that a session of form events reaches holds in \<open>previous_loan_taken\<close> the empty string
  or an option of its select.
\<close>

lemma formData_frame:
  "handleNext st = Inr st' \<Longrightarrow> formData st' = formData st"
  "formData (handlePrevious st) = formData st"
  "submitStart st = Inr (st1, c) \<Longrightarrow> formData st1 = formData st"
  "afterPredict captured outcome st = (st2, c2) \<Longrightarrow> formData st2 = formData st"
  "formData (afterFeedback outcome2 st) = formData st"
proof -
  show "handleNext st = Inr st' \<Longrightarrow> formData st' = formData st"
    by (auto simp: handleNext_def split: sum.splits if_splits)
  show "formData (handlePrevious st) = formData st"
    by (simp add: handlePrevious_def)
  show "submitStart st = Inr (st1, c) \<Longrightarrow> formData st1 = formData st"
    by (auto simp: submitStart_def split: sum.splits if_splits)
  show "afterPredict captured outcome st = (st2, c2) \<Longrightarrow> formData st2 = formData st"
    by (cases outcome) auto
  show "formData (afterFeedback outcome2 st) = formData st"
    by (cases outcome2) simp_all
qed

lemma loanTakenWritten_step:
  assumes "formEvent e" and "loanTakenWritten (formData (ui s))"
  shows "loanTakenWritten (formData (ui (handleEvent e s)))"
proof (cases e)
  case (Change f v)
  with assms show ?thesis
    by (simp add: setFormData_def loanTakenWritten_writers)
next
  case (LoanChange f v)
  show ?thesis
  proof (cases "f = ''previous_loan_taken''")
    case True
    with assms LoanChange obtain o' where "v = JStr o'" "o' \<in> set loanTakenOptions"
      by auto
    with True LoanChange assms(2) show ?thesis
      by (simp add: setFormData_def loanTakenWritten_writers)
  next
    case False
    with LoanChange assms(2) show ?thesis
      by (simp add: setFormData_def loanTakenWritten_writers)
  qed
next
  case (FileChosen x)
  with assms(2) show ?thesis
    by (simp add: setFormData_def loanTakenWritten_writers)
next
  case (ExtractResolved x outcome)
  with assms(2) show ?thesis
    by (cases outcome) (simp_all add: setFormData_def loanTakenWritten_writers)
next
  case ClickNext
  with assms(2) show ?thesis
    by (auto simp: formData_frame split: sum.splits)
next
  case ClickPrevious
  with assms(2) show ?thesis
    by (simp add: formData_frame)
next
  case ClickSubmit
  with assms(2) show ?thesis
    by (auto simp: formData_frame split: sum.splits option.splits)
next
  case (PredictResolved outcome)
  with assms(2) show ?thesis
    by (auto dest: formData_frame(4) split: list.splits inflight.splits prod.splits option.splits)
next
  case (FeedbackResolved outcome)
  with assms(2) show ?thesis
    by (auto simp: formData_frame split: list.splits inflight.splits)
next
  case ClickNewAssessment
  with assms(2) show ?thesis
    by (simp add: loanTakenWritten_writers)
qed

lemma loanTakenWritten_run:
  "list_all formEvent es \<Longrightarrow> loanTakenWritten (formData (ui (run es initialSession)))"
proof (induction es rule: rev_induct)
  case Nil
  show ?case
    by (simp add: run_def initialSession_def initialState_def loanTakenWritten_writers)
next
  case (snoc e es)
  then show ?case by (simp add: run_snoc loanTakenWritten_step)
qed

end
